theory Spec2Isabelle
  imports Complex_Main "HOL-Library.Word"
begin

section \<open>Image helpers of \<open>improc.py\<close>\<close>

text \<open>
  The module is a flat collection of helpers over numpy arrays. The embedding keeps the
  exceptions of the Python code as values: a function that can raise returns
  \<open>error + 'a\<close>, with \<open>Inl\<close> for the exception.
\<close>

datatype error = IndexError | ValueError | OSError | Cv2Error

text \<open>
  Two argument names of the source are constants of the library here and are written
  shorter: \<open>mask\<close> is \<open>msk\<close> and \<open>image\<close> is \<open>img\<close>.
\<close>

subsection \<open>The external validator: \<open>is_image_readable\<close>\<close>

text \<open>
  \<open>subprocess.call(args, ...)\<close> starts the program and waits for it. When the program
  cannot be started (no such file, no permission) the call raises \<open>OSError\<close>; otherwise
  it returns the return code (negative when the child was killed by a signal). What the
  operating system does with an argument vector is the parameter \<open>run\<close>.
\<close>

datatype proc_outcome = Exited int | LaunchFailed

definition subprocess_call :: "(string list \<Rightarrow> proc_outcome) \<Rightarrow> string list \<Rightarrow> error + int" where
  "subprocess_call run args =
     (case run args of Exited rc \<Rightarrow> Inr rc | LaunchFailed \<Rightarrow> Inl OSError)"

definition is_image_readable :: "(string list \<Rightarrow> proc_outcome) \<Rightarrow> string \<Rightarrow> error + bool" where
  "is_image_readable run path =
     (case subprocess_call run [''/usr/bin/identify'', path] of
        Inl e \<Rightarrow> Inl e
      | Inr rc \<Rightarrow> Inr (rc = 0))"

text \<open>A machine on which \<open>/usr/bin/identify\<close> is not installed.\<close>

definition no_identify :: "string list \<Rightarrow> proc_outcome" where
  "no_identify args = LaunchFailed"

subsection \<open>numpy arrays\<close>

text \<open>
  An array is its shape and its elements, addressed by index lists; only the elements at
  valid indices (each component below the extent of its axis) matter. The operations of
  this subsection are those of indexing and broadcasting and work for any element type;
  the element types of images, and the arithmetic numpy does on them, follow below.
\<close>

definition and_then :: "error + 'a \<Rightarrow> ('a \<Rightarrow> error + 'b) \<Rightarrow> error + 'b" where
  "and_then m f = (case m of Inl e \<Rightarrow> Inl e | Inr x \<Rightarrow> f x)"

record 'a ndarray =
  shape :: "nat list"
  elt :: "nat list \<Rightarrow> 'a"

text \<open>
  Broadcasting of two shapes, as numpy does it: the shapes are aligned at their last
  axis; two extents are compatible when they are equal or one of them is 1; a missing
  leading axis is taken from the longer shape. \<open>broadcast_rev\<close> works on the reversed
  shapes. An operand of shape \<open>s\<close> is read at index \<open>bidx s i\<close> for the element \<open>i\<close>
  of the result: the leading axes it lacks are dropped and an axis of extent 1 is read
  at 0. A binary operator on arrays raises \<open>ValueError\<close> on incompatible shapes.
\<close>

fun broadcast_rev :: "nat list \<Rightarrow> nat list \<Rightarrow> nat list option" where
  "broadcast_rev [] ys = Some ys"
| "broadcast_rev (x # xs) [] = Some (x # xs)"
| "broadcast_rev (x # xs) (y # ys) =
     (if x = y \<or> y = 1 then map_option ((#) x) (broadcast_rev xs ys)
      else if x = 1 then map_option ((#) y) (broadcast_rev xs ys)
      else None)"

definition broadcast_shapes :: "nat list \<Rightarrow> nat list \<Rightarrow> nat list option" where
  "broadcast_shapes s t = map_option rev (broadcast_rev (rev s) (rev t))"

definition bidx :: "nat list \<Rightarrow> nat list \<Rightarrow> nat list" where
  "bidx s i = map (\<lambda>(d, k). if d = 1 then 0 else k) (zip s (drop (length i - length s) i))"

definition elementwise :: "('a \<Rightarrow> 'b \<Rightarrow> 'c) \<Rightarrow> 'a ndarray \<Rightarrow> 'b ndarray \<Rightarrow> error + 'c ndarray" where
  "elementwise f a b =
     (case broadcast_shapes (shape a) (shape b) of
        None \<Rightarrow> Inl ValueError
      | Some s \<Rightarrow> Inr \<lparr>shape = s,
                       elt = (\<lambda>i. f (elt a (bidx (shape a) i)) (elt b (bidx (shape b) i)))\<rparr>)"

text \<open>\<open>np.expand_dims(a, -1)\<close>.\<close>

definition expand_dims_last :: "'a ndarray \<Rightarrow> 'a ndarray" where
  "expand_dims_last a = \<lparr>shape = shape a @ [1], elt = (\<lambda>i. elt a (butlast i))\<rparr>"

text \<open>
  A slice \<open>start:stop\<close> of an axis of extent \<open>n\<close>, as Python resolves it: a negative
  bound counts from the end, both bounds are clamped to \<open>0..n\<close>, and the slice is
  empty when the stop does not exceed the start. \<open>a[r0:r1, c0:c1]\<close> needs two axes
  (\<open>IndexError\<close> otherwise) and keeps the remaining axes whole.
\<close>

definition slice_index :: "int \<Rightarrow> nat \<Rightarrow> nat" where
  "slice_index v n = (if v < 0 then nat (max 0 (v + int n)) else min (nat v) n)"

definition slice_indices :: "int \<Rightarrow> int \<Rightarrow> nat \<Rightarrow> nat \<times> nat" where
  "slice_indices start stop n =
     (let lo = slice_index start n; hi = slice_index stop n in (lo, max lo hi))"

definition getslice2 :: "'a ndarray \<Rightarrow> int \<times> int \<Rightarrow> int \<times> int \<Rightarrow> error + 'a ndarray" where
  "getslice2 a rows cols =
     (case shape a of
        h # w # rest \<Rightarrow>
          (let (y0, y1) = slice_indices (fst rows) (snd rows) h;
               (x0, x1) = slice_indices (fst cols) (snd cols) w
           in Inr \<lparr>shape = (y1 - y0) # (x1 - x0) # rest,
                   elt = (\<lambda>i. case i of
                                 y # x # ch \<Rightarrow> elt a ((y0 + y) # (x0 + x) # ch)
                               | _ \<Rightarrow> elt a i)\<rparr>)
      | _ \<Rightarrow> Inl IndexError)"

text \<open>
  The assignment \<open>a[r0:r1, c0:c1] = v\<close> broadcasts \<open>v\<close> to the shape of the region:
  leading axes of extent 1 that \<open>v\<close> has in excess are stripped, and every remaining
  extent must equal the region's or be 1 (\<open>ValueError\<close> otherwise). Elements outside
  the region keep their value.
\<close>

fun strip_ones :: "nat \<Rightarrow> nat list \<Rightarrow> nat list" where
  "strip_ones n [] = []"
| "strip_ones n (d # ds) = (if n < length (d # ds) \<and> d = 1 then strip_ones n ds else d # ds)"

definition assignable :: "nat list \<Rightarrow> nat list \<Rightarrow> bool" where
  "assignable v t =
     (let v' = strip_ones (length t) v
      in length v' \<le> length t
         \<and> list_all2 (\<lambda>d e. d = e \<or> d = 1) v' (drop (length t - length v') t))"

definition assign_idx :: "nat list \<Rightarrow> nat list \<Rightarrow> nat list \<Rightarrow> nat list" where
  "assign_idx v t j =
     (let v' = strip_ones (length t) v
      in replicate (length v - length v') 0 @ bidx v' j)"

definition setslice2 ::
  "'a ndarray \<Rightarrow> int \<times> int \<Rightarrow> int \<times> int \<Rightarrow> 'a ndarray \<Rightarrow> error + 'a ndarray" where
  "setslice2 a rows cols v =
     (case shape a of
        h # w # rest \<Rightarrow>
          (let (y0, y1) = slice_indices (fst rows) (snd rows) h;
               (x0, x1) = slice_indices (fst cols) (snd cols) w;
               t = (y1 - y0) # (x1 - x0) # rest
           in if assignable (shape v) t
              then Inr (a\<lparr>elt := (\<lambda>i. case i of
                            y # x # ch \<Rightarrow>
                              if y0 \<le> y \<and> y < y1 \<and> x0 \<le> x \<and> x < x1
                              then elt v (assign_idx (shape v) t ((y - y0) # (x - x0) # ch))
                              else elt a i
                          | _ \<Rightarrow> elt a i)\<rparr>)
              else Inl ValueError)
      | _ \<Rightarrow> Inl IndexError)"

subsection \<open>Gamma correction: \<open>get_gamma_lookup_table\<close> and \<open>adjust_gamma\<close>\<close>

text \<open>
  The number of binary digits of a positive integer.
\<close>

function bitlen :: "int \<Rightarrow> int" where
  "bitlen n = (if n \<le> 0 then 0 else 1 + bitlen (n div 2))"
  by pat_completeness auto

termination
  by (relation "measure nat") auto

declare bitlen.simps [simp del]

definition pow2 :: "int \<Rightarrow> rat" where
  "pow2 k = (if 0 \<le> k then 2 ^ nat k else 1 / 2 ^ nat (- k))"

text \<open>
  \<open>fl64 x\<close> is the IEEE 754 double nearest to the rational \<open>x\<close>, ties to even: the
  result of a correctly rounded operation whose exact value is \<open>x\<close>. With
  \<open>2 ^ e \<le> |x| < 2 ^ (e + 1)\<close> the significand \<open>|x| / 2 ^ (e - 52)\<close> is rounded to
  an integer of 53 bits. Overflow and subnormal numbers are not modelled: every value
  of the gamma table lies in \<open>[0, 255]\<close> and is zero or at least \<open>1 / 255\<close>.
\<close>

definition round_half_even :: "rat \<Rightarrow> int" where
  "round_half_even x =
     (let f = \<lfloor>x\<rfloor>; d = x - of_int f
      in if d < 1 / 2 then f else if 1 / 2 < d then f + 1 else if even f then f else f + 1)"

definition binexp :: "rat \<Rightarrow> int" where
  "binexp x =
     (let (p, q) = quotient_of x;
          k = bitlen p - bitlen q
      in if pow2 k \<le> x then k else k - 1)"

definition fl64 :: "rat \<Rightarrow> rat" where
  "fl64 x =
     (if x = 0 then 0
      else let e = binexp \<bar>x\<bar>;
               m = round_half_even (\<bar>x\<bar> * pow2 (52 - e))
           in sgn x * of_int m * pow2 (e - 52))"

text \<open>
  \<open>np.linspace(start, stop, num)\<close> with the end point: the step is
  \<open>(stop - start) / (num - 1)\<close>, element \<open>i\<close> is \<open>i * step + start\<close>, each
  operation rounded, and the last element is set to \<open>stop\<close>.
\<close>

definition np_linspace :: "rat \<Rightarrow> rat \<Rightarrow> nat \<Rightarrow> rat list" where
  "np_linspace start stop num =
     (let d = num - 1;
          delta = fl64 (stop - start);
          step = fl64 (delta / of_nat d)
      in map (\<lambda>i. if i = num - 1 then stop else fl64 (fl64 (of_nat i * step) + start))
           [0..<num])"

text \<open>
  \<open>(np.linspace(0, 1, 256) ** gamma * 255).astype(np.uint8)\<close>. The power function of
  the platform is the parameter \<open>pw\<close>; the cast of a non-negative double to
  \<open>uint8\<close> truncates.
\<close>

definition get_gamma_lookup_table :: "(rat \<Rightarrow> rat \<Rightarrow> rat) \<Rightarrow> rat \<Rightarrow> 8 word list" where
  "get_gamma_lookup_table pw gamma =
     map (\<lambda>v. word_of_int \<lfloor>fl64 (pw v gamma * 255)\<rfloor>) (np_linspace 0 1 256)"

text \<open>
  \<open>cv2.LUT\<close> replaces every element \<open>v\<close> of a \<open>uint8\<close> image by \<open>lut[v]\<close>. With
  \<open>inplace\<close> the same values are written into the input array.
\<close>

definition cv2_LUT :: "8 word ndarray \<Rightarrow> 8 word list \<Rightarrow> 8 word ndarray" where
  "cv2_LUT img lut = img\<lparr>elt := (\<lambda>i. lut ! unat (elt img i))\<rparr>"

definition adjust_gamma :: "(rat \<Rightarrow> rat \<Rightarrow> rat) \<Rightarrow> 8 word ndarray \<Rightarrow> rat \<Rightarrow> 8 word ndarray" where
  "adjust_gamma pw img gamma = cv2_LUT img (get_gamma_lookup_table pw gamma)"

text \<open>A power function that is exact at exponent 1, and a one-pixel image of value 33.\<close>

definition pw1 :: "rat \<Rightarrow> rat \<Rightarrow> rat" where
  "pw1 x g = (if g = 1 then x else 0)"

definition image33 :: "8 word ndarray" where
  "image33 = \<lparr>shape = [1, 1], elt = (\<lambda>i. 33)\<rparr>"

subsection \<open>Element types and their arithmetic\<close>

text \<open>
  An array object carries a dtype. Three dtypes are modelled, those of the images and
  alpha maps this module handles: \<open>uint8\<close>, \<open>float32\<close> and \<open>float64\<close>. An element is a
  rational number or one of the special values of IEEE 754. The two zeros of a float
  format are one value here (numpy compares them equal) and there is a single NaN.
\<close>

datatype dtype = UInt8 | Float32 | Float64

datatype npval = Finite rat | PInf | NInf | NaN

text \<open>
  A binary operator on two arrays works in the promoted dtype of its operands:
  \<open>uint8\<close> with a float dtype gives that float dtype, \<open>float32\<close> with \<open>float64\<close> gives
  \<open>float64\<close>.
\<close>

definition promote :: "dtype \<Rightarrow> dtype \<Rightarrow> dtype" where
  "promote a b =
     (if a = Float64 \<or> b = Float64 then Float64
      else if a = Float32 \<or> b = Float32 then Float32 else UInt8)"

text \<open>
  \<open>float_round dt x\<close> is the number of the float format \<open>dt\<close> nearest to the rational
  \<open>x\<close>, ties to even: the result of a correctly rounded operation whose exact value is
  \<open>x\<close>. The significand has \<open>precision dt\<close> bits; below \<open>2 ^ emin dt\<close> the spacing
  stays that of the smallest normal numbers (gradual underflow); a result that rounds
  to \<open>2 ^ (emax dt + 1)\<close> or more is an infinity.
\<close>

definition precision :: "dtype \<Rightarrow> int" where
  "precision dt = (if dt = Float32 then 24 else 53)"

definition emin :: "dtype \<Rightarrow> int" where
  "emin dt = (if dt = Float32 then - 126 else - 1022)"

definition emax :: "dtype \<Rightarrow> int" where
  "emax dt = (if dt = Float32 then 127 else 1023)"

definition float_round :: "dtype \<Rightarrow> rat \<Rightarrow> npval" where
  "float_round dt x =
     (if x = 0 then Finite 0
      else let e = max (binexp \<bar>x\<bar>) (emin dt);
               m = round_half_even (\<bar>x\<bar> * pow2 (precision dt - 1 - e));
               y = of_int m * pow2 (e - precision dt + 1)
           in if pow2 (emax dt + 1) \<le> y then (if 0 < x then PInf else NInf)
              else Finite (sgn x * y))"

text \<open>
  Multiplication and addition of floats: the exact result, rounded, when both operands
  are finite; otherwise the rules of IEEE 754, by which \<open>0 * inf\<close> and \<open>inf - inf\<close>
  are NaN and every operation on a NaN is NaN.
\<close>

definition vneg :: "npval \<Rightarrow> npval" where
  "vneg v = (case v of Finite x \<Rightarrow> Finite (- x) | PInf \<Rightarrow> NInf | NInf \<Rightarrow> PInf | NaN \<Rightarrow> NaN)"

fun float_mul :: "dtype \<Rightarrow> npval \<Rightarrow> npval \<Rightarrow> npval" where
  "float_mul dt (Finite x) (Finite y) = float_round dt (x * y)"
| "float_mul dt NaN b = NaN"
| "float_mul dt a NaN = NaN"
| "float_mul dt (Finite x) b = (if x = 0 then NaN else if 0 < x then b else vneg b)"
| "float_mul dt a (Finite y) = (if y = 0 then NaN else if 0 < y then a else vneg a)"
| "float_mul dt a b = (if a = b then PInf else NInf)"

fun float_add :: "dtype \<Rightarrow> npval \<Rightarrow> npval \<Rightarrow> npval" where
  "float_add dt (Finite x) (Finite y) = float_round dt (x + y)"
| "float_add dt NaN b = NaN"
| "float_add dt a NaN = NaN"
| "float_add dt (Finite x) b = b"
| "float_add dt a (Finite y) = a"
| "float_add dt a b = (if a = b then a else NaN)"

text \<open>
  Arithmetic between \<open>uint8\<close> operands stays in \<open>uint8\<close> and wraps modulo 256; a
  \<open>uint8\<close> array holds no special value. \<open>np_mul\<close>, \<open>np_add\<close> and \<open>np_sub\<close> are the
  operators \<open>*\<close>, \<open>+\<close> and \<open>-\<close> on elements of the dtype given.
\<close>

definition uint8_op :: "(int \<Rightarrow> int \<Rightarrow> int) \<Rightarrow> npval \<Rightarrow> npval \<Rightarrow> npval" where
  "uint8_op f a b =
     (case (a, b) of
        (Finite x, Finite y) \<Rightarrow> Finite (of_int (f \<lfloor>x\<rfloor> \<lfloor>y\<rfloor> mod 256))
      | _ \<Rightarrow> NaN)"

definition np_mul :: "dtype \<Rightarrow> npval \<Rightarrow> npval \<Rightarrow> npval" where
  "np_mul dt a b = (if dt = UInt8 then uint8_op (*) a b else float_mul dt a b)"

definition np_add :: "dtype \<Rightarrow> npval \<Rightarrow> npval \<Rightarrow> npval" where
  "np_add dt a b = (if dt = UInt8 then uint8_op (+) a b else float_add dt a b)"

definition np_sub :: "dtype \<Rightarrow> npval \<Rightarrow> npval \<Rightarrow> npval" where
  "np_sub dt a b = (if dt = UInt8 then uint8_op (-) a b else float_add dt a (vneg b))"

text \<open>
  The conversion of an element into a dtype, which \<open>astype\<close> and an assignment into an
  array perform. Into a float dtype the number is rounded to the format. Into \<open>uint8\<close> a
  float is truncated toward zero. For a number outside \<open>0..255\<close>, an infinity or a NaN the
  conversion to \<open>uint8\<close> is left undefined by C; the model takes the truncated integer
  modulo 256, and 0 for the special values. The statements below are expressed with
  \<open>np_cast\<close>; the examples evaluated below convert only numbers of the range \<open>0..255\<close> to
  \<open>uint8\<close>.
\<close>

definition trunc :: "rat \<Rightarrow> int" where
  "trunc x = (if 0 \<le> x then \<lfloor>x\<rfloor> else \<lceil>x\<rceil>)"

definition np_cast :: "dtype \<Rightarrow> npval \<Rightarrow> npval" where
  "np_cast dt v =
     (case v of
        Finite x \<Rightarrow> if dt = UInt8 then Finite (of_int (trunc x mod 256)) else float_round dt x
      | _ \<Rightarrow> if dt = UInt8 then Finite 0 else v)"


text \<open>
  The expression \<open>alpha * src + (1 - alpha) * dst\<close> on one element of each operand, as
  numpy evaluates it on arrays of dtypes \<open>da\<close>, \<open>ds\<close> and \<open>dd\<close>: \<open>1 - alpha\<close> in the
  dtype of \<open>alpha\<close> (the Python integer 1 does not change it), each product in the
  promoted dtype of its operands, the sum in the promoted dtype of the products.
\<close>

definition blend_value :: "dtype \<Rightarrow> dtype \<Rightarrow> dtype \<Rightarrow> npval \<Rightarrow> npval \<Rightarrow> npval \<Rightarrow> npval" where
  "blend_value da ds dd a s d =
     np_add (promote (promote da ds) (promote da dd))
       (np_mul (promote da ds) a s)
       (np_mul (promote da dd) (np_sub da (Finite 1) a) d)"

text \<open>
  An array object: a dtype and the elements. \<open>np.ones(shape, dtype)\<close>, the slice
  \<open>a[r0:r1, c0:c1]\<close> (of the dtype of \<open>a\<close>), the operators \<open>*\<close> and \<open>+\<close> on arrays
  (\<open>ValueError\<close> on shapes that do not broadcast), \<open>1 - a\<close>, \<open>astype\<close>, and the
  assignment \<open>a[r0:r1, c0:c1] = v\<close>, which converts \<open>v\<close> into the dtype of \<open>a\<close>.
\<close>

record nparray =
  dtype :: dtype
  data :: "npval ndarray"

definition np_ones :: "nat list \<Rightarrow> dtype \<Rightarrow> nparray" where
  "np_ones s dt = \<lparr>dtype = dt, data = \<lparr>shape = s, elt = (\<lambda>i. Finite 1)\<rparr>\<rparr>"

definition slice2 :: "nparray \<Rightarrow> int \<times> int \<Rightarrow> int \<times> int \<Rightarrow> error + nparray" where
  "slice2 a rows cols = and_then (getslice2 (data a) rows cols) (\<lambda>d. Inr (a\<lparr>data := d\<rparr>))"

definition multiply :: "nparray \<Rightarrow> nparray \<Rightarrow> error + nparray" where
  "multiply a b =
     (let dt = promote (dtype a) (dtype b)
      in and_then (elementwise (np_mul dt) (data a) (data b))
           (\<lambda>d. Inr \<lparr>dtype = dt, data = d\<rparr>))"

definition add :: "nparray \<Rightarrow> nparray \<Rightarrow> error + nparray" where
  "add a b =
     (let dt = promote (dtype a) (dtype b)
      in and_then (elementwise (np_add dt) (data a) (data b))
           (\<lambda>d. Inr \<lparr>dtype = dt, data = d\<rparr>))"

definition one_minus :: "nparray \<Rightarrow> nparray" where
  "one_minus a = a\<lparr>data := (data a)\<lparr>elt := (\<lambda>i. np_sub (dtype a) (Finite 1) (elt (data a) i))\<rparr>\<rparr>"

definition astype :: "dtype \<Rightarrow> nparray \<Rightarrow> nparray" where
  "astype dt a = \<lparr>dtype = dt, data = (data a)\<lparr>elt := (\<lambda>i. np_cast dt (elt (data a) i))\<rparr>\<rparr>"

definition assign2 :: "nparray \<Rightarrow> int \<times> int \<Rightarrow> int \<times> int \<Rightarrow> nparray \<Rightarrow> error + nparray" where
  "assign2 a rows cols v =
     and_then (setslice2 (data a) rows cols (data (astype (dtype a) v)))
       (\<lambda>d. Inr (a\<lparr>data := d\<rparr>))"

subsection \<open>\<open>paste_over\<close>\<close>

text \<open>
  The two-element integer vectors of the source, \<open>[x, y]\<close>: the first component is
  the column, the second the row. The centre is an integer pixel position (\<open>np.round\<close>
  leaves integers as they are; fractional centres are not modelled), cast to
  \<open>int32\<close>, which wraps. The remaining arithmetic is 64-bit in the source and never
  overflows for shapes and centres below \<open>2 ^ 31\<close>; it is done on unbounded integers.
\<close>

type_synonym vec2 = "int \<times> int"

definition v_add :: "vec2 \<Rightarrow> vec2 \<Rightarrow> vec2" where
  "v_add a b = (fst a + fst b, snd a + snd b)"

definition v_sub :: "vec2 \<Rightarrow> vec2 \<Rightarrow> vec2" where
  "v_sub a b = (fst a - fst b, snd a - snd b)"

definition v_floordiv :: "vec2 \<Rightarrow> int \<Rightarrow> vec2" where
  "v_floordiv a k = (fst a div k, snd a div k)"

definition np_clip :: "int \<Rightarrow> int \<Rightarrow> int \<Rightarrow> int" where
  "np_clip x lo hi = min (max x lo) hi"

definition v_clip :: "vec2 \<Rightarrow> int \<Rightarrow> vec2 \<Rightarrow> vec2" where
  "v_clip a lo hi = (np_clip (fst a) lo (fst hi), np_clip (snd a) lo (snd hi))"

definition to_int32 :: "int \<Rightarrow> int" where
  "to_int32 c = sint (word_of_int c :: 32 word)"

text \<open>
  The placement: the ideal rectangle of the source around the centre, its clamp to the
  destination, and the sub-rectangle of the source that lands on the clamped region.
\<close>

definition ideal_start_dst :: "vec2 \<Rightarrow> vec2 \<Rightarrow> vec2" where
  "ideal_start_dst width_height_src center =
     v_sub (to_int32 (fst center), to_int32 (snd center)) (v_floordiv width_height_src 2)"

definition ideal_end_dst :: "vec2 \<Rightarrow> vec2 \<Rightarrow> vec2" where
  "ideal_end_dst width_height_src center =
     v_add (ideal_start_dst width_height_src center) width_height_src"

definition start_dst :: "vec2 \<Rightarrow> vec2 \<Rightarrow> vec2 \<Rightarrow> vec2" where
  "start_dst width_height_src width_height_dst center =
     v_clip (ideal_start_dst width_height_src center) 0 width_height_dst"

definition end_dst :: "vec2 \<Rightarrow> vec2 \<Rightarrow> vec2 \<Rightarrow> vec2" where
  "end_dst width_height_src width_height_dst center =
     v_clip (ideal_end_dst width_height_src center) 0 width_height_dst"

definition start_src :: "vec2 \<Rightarrow> vec2 \<Rightarrow> vec2 \<Rightarrow> vec2" where
  "start_src width_height_src width_height_dst center =
     v_sub (start_dst width_height_src width_height_dst center)
           (ideal_start_dst width_height_src center)"

definition end_src :: "vec2 \<Rightarrow> vec2 \<Rightarrow> vec2 \<Rightarrow> vec2" where
  "end_src width_height_src width_height_dst center =
     v_add width_height_src
       (v_sub (end_dst width_height_src width_height_dst center)
              (ideal_end_dst width_height_src center))"

text \<open>The right-hand side \<open>alpha * region_src + (1 - alpha) * region_dst\<close>.\<close>

definition blend :: "nparray \<Rightarrow> nparray \<Rightarrow> nparray \<Rightarrow> error + nparray" where
  "blend alpha region_src region_dst =
     and_then (multiply alpha region_src) (\<lambda>t1.
     and_then (multiply (one_minus alpha) region_dst) (\<lambda>t2.
     add t1 t2))"

text \<open>
  An absent alpha is \<open>np.ones(im_src.shape[:2], dtype=np.float32)\<close>; an alpha with fewer
  axes than the source gets a last axis of extent 1.
\<close>

definition alpha_or_ones :: "nparray option \<Rightarrow> nparray \<Rightarrow> nparray" where
  "alpha_or_ones alpha im_src =
     (case alpha of None \<Rightarrow> np_ones (take 2 (shape (data im_src))) Float32 | Some a \<Rightarrow> a)"

definition alpha_like :: "nparray \<Rightarrow> nparray \<Rightarrow> nparray" where
  "alpha_like alpha im_src =
     (if length (shape (data alpha)) < length (shape (data im_src))
      then alpha\<lparr>data := expand_dims_last (data alpha)\<rparr> else alpha)"

text \<open>
  \<open>paste_over\<close> on the contents of the arrays: the value of \<open>result\<close> at the return.
  Reading \<open>im_src.shape[1]\<close> or slicing with two subscripts raises \<open>IndexError\<close> on an
  array with fewer than two axes. The blend is computed in the promoted dtype of its
  operands and converted into the dtype of \<open>result\<close>, which is that of \<open>im_dst\<close>, by the
  final assignment.
\<close>

definition paste_over :: "nparray \<Rightarrow> nparray \<Rightarrow> nparray option \<Rightarrow> vec2 \<Rightarrow> error + nparray" where
  "paste_over im_src im_dst alpha center =
     (if length (shape (data im_src)) < 2 \<or> length (shape (data im_dst)) < 2 then Inl IndexError
      else
        let width_height_src = (int (shape (data im_src) ! 1), int (shape (data im_src) ! 0));
            width_height_dst = (int (shape (data im_dst) ! 1), int (shape (data im_dst) ! 0));
            start_dst = start_dst width_height_src width_height_dst center;
            end_dst = end_dst width_height_src width_height_dst center;
            result = im_dst
        in and_then (slice2 result (snd start_dst, snd end_dst) (fst start_dst, fst end_dst))
           (\<lambda>region_dst.
        let start_src = start_src width_height_src width_height_dst center;
            end_src = end_src width_height_src width_height_dst center;
            alpha = alpha_like (alpha_or_ones alpha im_src) im_src
        in and_then (slice2 alpha (snd start_src, snd end_src) (fst start_src, fst end_src))
           (\<lambda>alpha.
           and_then (slice2 im_src (snd start_src, snd end_src) (fst start_src, fst end_src))
           (\<lambda>region_src.
           and_then (blend alpha region_src region_dst)
           (\<lambda>blended.
             assign2 result (snd start_dst, snd end_dst) (fst start_dst, fst end_dst)
               blended)))))"

text \<open>
  The vocabulary of the statements: the blend weight that belongs to a source pixel, the
  dtype of the alpha map (\<open>float32\<close> when it is absent), an alpha that fits the source
  (absent, of the source's height and width, or of the source's shape), a placement fully
  inside the destination, an empty clamped overlap, whether the ideal rectangle covers a
  destination pixel, and the source pixel that lies on it.
\<close>

definition alpha_at :: "nparray option \<Rightarrow> nat \<Rightarrow> nat \<Rightarrow> nat list \<Rightarrow> npval" where
  "alpha_at alpha y x ch =
     (case alpha of
        None \<Rightarrow> Finite 1
      | Some a \<Rightarrow> if length (shape (data a)) = 2 then elt (data a) [y, x]
                  else elt (data a) (y # x # ch))"

definition alpha_dtype :: "nparray option \<Rightarrow> dtype" where
  "alpha_dtype alpha = (case alpha of None \<Rightarrow> Float32 | Some a \<Rightarrow> dtype a)"

definition alpha_fits :: "nparray option \<Rightarrow> nparray \<Rightarrow> bool" where
  "alpha_fits alpha im_src =
     (case alpha of
        None \<Rightarrow> True
      | Some a \<Rightarrow> shape (data a) = take 2 (shape (data im_src))
                  \<or> shape (data a) = shape (data im_src))"

definition fully_inside :: "vec2 \<Rightarrow> vec2 \<Rightarrow> vec2 \<Rightarrow> bool" where
  "fully_inside width_height_src width_height_dst center =
     (0 \<le> fst (ideal_start_dst width_height_src center)
      \<and> fst (ideal_end_dst width_height_src center) \<le> fst width_height_dst
      \<and> 0 \<le> snd (ideal_start_dst width_height_src center)
      \<and> snd (ideal_end_dst width_height_src center) \<le> snd width_height_dst)"

definition overlap_empty :: "vec2 \<Rightarrow> vec2 \<Rightarrow> vec2 \<Rightarrow> bool" where
  "overlap_empty width_height_src width_height_dst center =
     (fst (end_dst width_height_src width_height_dst center)
        \<le> fst (start_dst width_height_src width_height_dst center)
      \<or> snd (end_dst width_height_src width_height_dst center)
        \<le> snd (start_dst width_height_src width_height_dst center))"

definition covered :: "vec2 \<Rightarrow> vec2 \<Rightarrow> nat \<Rightarrow> nat \<Rightarrow> bool" where
  "covered width_height_src center y x =
     (snd (ideal_start_dst width_height_src center) \<le> int y
      \<and> int y < snd (ideal_end_dst width_height_src center)
      \<and> fst (ideal_start_dst width_height_src center) \<le> int x
      \<and> int x < fst (ideal_end_dst width_height_src center))"

definition src_row :: "vec2 \<Rightarrow> vec2 \<Rightarrow> nat \<Rightarrow> nat" where
  "src_row width_height_src center y = nat (int y - snd (ideal_start_dst width_height_src center))"

definition src_col :: "vec2 \<Rightarrow> vec2 \<Rightarrow> nat \<Rightarrow> nat" where
  "src_col width_height_src center x = nat (int x - fst (ideal_start_dst width_height_src center))"

definition valid_index :: "nat list \<Rightarrow> nat list \<Rightarrow> bool" where
  "valid_index i s = list_all2 (<) i s"

text \<open>
  The \<open>inplace\<close> flag decides which array object is written. Array objects live in a
  store (a reference is an index into it); \<open>im_dst.copy()\<close> allocates a new object.
  The right-hand side of the final assignment is evaluated completely before the
  assignment writes, so the written values are those \<open>paste_over\<close> computes from
  the contents at the call. When the call raises, the fresh copy is unreachable and the
  store is as before.
\<close>

type_synonym store = "nparray list"

definition paste_over_heap ::
  "store \<Rightarrow> nat \<Rightarrow> nat \<Rightarrow> nat option \<Rightarrow> vec2 \<Rightarrow> bool \<Rightarrow> (error + nat) \<times> store" where
  "paste_over_heap st im_src im_dst alpha center inplace =
     (let (result, st1) = (if inplace then (im_dst, st) else (length st, st @ [st ! im_dst]))
      in case paste_over (st1 ! im_src) (st1 ! result) (map_option ((!) st1) alpha) center of
           Inl e \<Rightarrow> (Inl e, st)
         | Inr r \<Rightarrow> (Inr result, st1[result := r]))"


text \<open>
  Two arrays are the same image when they have the same shape and agree at every valid
  index; \<open>indices\<close> enumerates the valid indices of a shape. Two array objects are the
  same array when they also have the same dtype.
\<close>

fun indices :: "nat list \<Rightarrow> nat list list" where
  "indices [] = [[]]"
| "indices (n # ns) = concat (map (\<lambda>k. map ((#) k) (indices ns)) [0..<n])"

definition same_image :: "'a ndarray \<Rightarrow> 'a ndarray \<Rightarrow> bool" where
  "same_image a b = (shape a = shape b \<and> list_all (\<lambda>i. elt a i = elt b i) (indices (shape a)))"





text \<open>
  Sample images: a 2x2 \<open>uint8\<close> source with three channels, a 4x5 \<open>uint8\<close> destination,
  a uniform \<open>float32\<close> alpha of one half, a \<open>float32\<close> destination whose pixels are
  all infinite, and a one-pixel \<open>uint8\<close> image of value 3 with a one-pixel alpha that
  holds the \<open>float32\<close> nearest to \<open>1 / 10\<close>.
\<close>

definition src0 :: nparray where
  "src0 = \<lparr>dtype = UInt8,
           data = \<lparr>shape = [2, 2, 3], elt = (\<lambda>i. Finite (of_nat (100 + 10 * (i ! 0) + i ! 1)))\<rparr>\<rparr>"

definition dst0 :: nparray where
  "dst0 = \<lparr>dtype = UInt8,
           data = \<lparr>shape = [4, 5, 3], elt = (\<lambda>i. Finite (of_nat (10 * (i ! 0) + i ! 1)))\<rparr>\<rparr>"

definition alpha0 :: nparray where
  "alpha0 = \<lparr>dtype = Float32, data = \<lparr>shape = [2, 2], elt = (\<lambda>i. Finite (1 / 2))\<rparr>\<rparr>"


definition src3 :: nparray where
  "src3 = \<lparr>dtype = UInt8, data = \<lparr>shape = [1, 1], elt = (\<lambda>i. Finite 3)\<rparr>\<rparr>"

definition alpha_tenth :: nparray where
  "alpha_tenth =
     \<lparr>dtype = Float32,
      data = \<lparr>shape = [1, 1], elt = (\<lambda>i. Finite (13421773 / 134217728))\<rparr>\<rparr>"

definition store0 :: store where
  "store0 = [src0, dst0, alpha0]"

text \<open>A destination with four channels, which the three-channel source does not fit.\<close>

definition dst4 :: nparray where
  "dst4 = \<lparr>dtype = UInt8, data = \<lparr>shape = [4, 5, 4], elt = (\<lambda>i. Finite 0)\<rparr>\<rparr>"

subsection \<open>Connected components: \<open>remove_small_components\<close>, \<open>largest_connected_component\<close>\<close>

text \<open>
  \<open>cv2.connectedComponentsWithStats(mask, connectivity, cv2.CV_32S)\<close> is a library call:
  it is a parameter of the two functions. It returns the number of labels, the label
  image (label 0 is the background) and one row of statistics per label, whose columns
  are left, top, width, height and area (the number of pixels of the label); on an
  unsupported input it raises.
\<close>

record cc_stat =
  cc_left :: int
  cc_top :: int
  cc_width :: int
  cc_height :: int
  cc_area :: int

record cc_result =
  n_labels :: nat
  labels :: "int ndarray"
  stats :: "cc_stat list"

text \<open>
  \<open>ids_small\<close> are the labels whose area is below \<open>min_size\<close>; the loop clears the
  pixels of each. With \<open>inplace\<close> the loop writes into the argument, otherwise into a
  copy; the returned values are the same.
\<close>

definition remove_small_components ::
  "('a::zero ndarray \<Rightarrow> nat \<Rightarrow> error + cc_result) \<Rightarrow> 'a ndarray \<Rightarrow> int \<Rightarrow> nat
     \<Rightarrow> error + 'a ndarray" where
  "remove_small_components connectedComponentsWithStats msk min_size connectivity =
     (case connectedComponentsWithStats msk connectivity of
        Inl e \<Rightarrow> Inl e
      | Inr r \<Rightarrow>
          let is_small = map (\<lambda>s. cc_area s < min_size) (stats r);
              ids_small = filter (\<lambda>i. is_small ! i) [0..<length is_small]
          in Inr (fold (\<lambda>i m. m\<lparr>elt := (\<lambda>idx. if elt (labels r) idx = int i then 0
                                                else elt m idx)\<rparr>)
                    ids_small msk))"

definition astype_uint8 :: "int ndarray \<Rightarrow> 8 word ndarray" where
  "astype_uint8 a = \<lparr>shape = shape a, elt = (\<lambda>i. word_of_int (elt a i))\<rparr>"

text \<open>
  \<open>np.argsort\<close>: the indices that sort the list. Which of several equal areas comes
  last is not fixed by numpy's default sort; here the sort is stable.
\<close>

definition argsort :: "int list \<Rightarrow> nat list" where
  "argsort xs = map snd (sort_key fst (zip xs [0..<length xs]))"

definition largest_connected_component ::
  "(8 word ndarray \<Rightarrow> nat \<Rightarrow> error + cc_result) \<Rightarrow> int ndarray
     \<Rightarrow> error + (8 word ndarray \<times> int list)" where
  "largest_connected_component connectedComponentsWithStats msk =
     (let msk = astype_uint8 msk
      in case connectedComponentsWithStats msk 4 of
           Inl e \<Rightarrow> Inl e
         | Inr r \<Rightarrow>
             let areas = map cc_area (drop 1 (stats r))
             in if length areas < 1 then Inr (msk, [0, 0, 0, 0])
                else
                  let largest_area_label = 1 + last (argsort areas);
                      obj_mask = \<lparr>shape = shape (labels r),
                                  elt = (\<lambda>i. if elt (labels r) i = int largest_area_label
                                             then 1 else 0)\<rparr>;
                      s = stats r ! largest_area_label;
                      obj_box = [cc_left s, cc_top s, cc_width s, cc_height s]
                  in Inr (obj_mask, obj_box))"

subsection \<open>\<open>resize_by_factor\<close>\<close>

text \<open>
  \<open>cv2.resize\<close> is a library call and a parameter. \<open>np.round\<close> rounds halves to the
  even integer; the products \<open>shape * factor\<close> are taken exactly.
\<close>

datatype interpolation = INTER_NEAREST | INTER_LINEAR | INTER_CUBIC | INTER_AREA | INTER_LANCZOS4

definition rounded_int_tuple :: "rat list \<Rightarrow> int list" where
  "rounded_int_tuple p = map round_half_even p"

definition resize_by_factor ::
  "('a ndarray \<Rightarrow> int list \<Rightarrow> rat \<Rightarrow> rat \<Rightarrow> interpolation \<Rightarrow> error + 'a ndarray)
     \<Rightarrow> 'a ndarray \<Rightarrow> rat \<Rightarrow> interpolation option \<Rightarrow> error + 'a ndarray" where
  "resize_by_factor cv2_resize im factor interp =
     (if length (shape im) < 2 then Inl IndexError
      else
        let new_size = rounded_int_tuple
                         [of_nat (shape im ! 1) * factor, of_nat (shape im ! 0) * factor];
            interp = (case interp of
                        None \<Rightarrow> if 1 < factor then INTER_LINEAR else INTER_AREA
                      | Some i \<Rightarrow> i)
        in cv2_resize im new_size factor factor interp)"

text \<open>
  Sample data: a 2x3 mask with two one-pixel components and the result
  \<open>connectedComponentsWithStats\<close> gives for it, an empty mask and its result, and a
  \<open>resize\<close> that copies when the requested size is the image's own.
\<close>

definition mask0 :: "int ndarray" where
  "mask0 = \<lparr>shape = [2, 3], elt = (\<lambda>i. if i = [0, 0] \<or> i = [1, 2] then 1 else 0)\<rparr>"

definition cc_two_result :: cc_result where
  "cc_two_result =
         \<lparr>n_labels = 3,
          labels = \<lparr>shape = [2, 3],
                    elt = (\<lambda>i. if i = [0, 0] then 1 else if i = [1, 2] then 2 else 0)\<rparr>,
          stats = [\<lparr>cc_left = 0, cc_top = 0, cc_width = 3, cc_height = 2, cc_area = 4\<rparr>,
                   \<lparr>cc_left = 0, cc_top = 0, cc_width = 1, cc_height = 1, cc_area = 1\<rparr>,
                   \<lparr>cc_left = 2, cc_top = 1, cc_width = 1, cc_height = 1, cc_area = 1\<rparr>]\<rparr>"

definition cc_two :: "'a ndarray \<Rightarrow> nat \<Rightarrow> error + cc_result" where
  "cc_two m connectivity = Inr cc_two_result"

definition blank :: "int ndarray" where
  "blank = \<lparr>shape = [2, 3], elt = (\<lambda>i. 0)\<rparr>"

definition cc_none_result :: cc_result where
  "cc_none_result =
         \<lparr>n_labels = 1,
          labels = \<lparr>shape = [2, 3], elt = (\<lambda>i. 0)\<rparr>,
          stats = [\<lparr>cc_left = 0, cc_top = 0, cc_width = 3, cc_height = 2, cc_area = 6\<rparr>]\<rparr>"

definition cc_none :: "'a ndarray \<Rightarrow> nat \<Rightarrow> error + cc_result" where
  "cc_none m connectivity = Inr cc_none_result"

definition resize_same ::
  "'a ndarray \<Rightarrow> int list \<Rightarrow> rat \<Rightarrow> rat \<Rightarrow> interpolation \<Rightarrow> error + 'a ndarray" where
  "resize_same im dsize fx fy interp =
     (if dsize = [int (shape im ! 1), int (shape im ! 0)] then Inr im else Inl Cv2Error)"

subsection \<open>Mask codec: \<open>encode_mask\<close> and \<open>decode_mask\<close>\<close>

text \<open>
  Modelled from the spec: the run-length mask codec (\<open>pycocotools.mask.encode\<close> and
  \<open>decode\<close>), which the two functions delegate to, is not among the sources. Following
  the specification it is the COCO-style codec on binary masks: the mask is read in
  column-major (Fortran) order and stored as its size and the lengths of the alternating
  runs, the first run being of zeros; decoding writes the runs back, alternating 0 and 1
  from 0. The packing of the run lengths into a byte string is left out. The model covers
  two-dimensional masks.
\<close>

record rle =
  rle_size :: "nat \<times> nat"
  rle_counts :: "nat list"

fun rle_runs :: "8 word \<Rightarrow> nat \<Rightarrow> 8 word list \<Rightarrow> nat list" where
  "rle_runs p c [] = [c]"
| "rle_runs p c (t # ts) = (if t \<noteq> p then c # rle_runs t 1 ts else rle_runs p (c + 1) ts)"

fun rle_expand :: "8 word \<Rightarrow> nat list \<Rightarrow> 8 word list" where
  "rle_expand v [] = []"
| "rle_expand v (c # cs) = replicate c v @ rle_expand (if v = 0 then 1 else 0) cs"

definition fortran_order :: "8 word ndarray \<Rightarrow> nat \<Rightarrow> nat \<Rightarrow> 8 word list" where
  "fortran_order a h w = map (\<lambda>k. elt a [k mod h, k div h]) [0..<h * w]"

definition mask_encode :: "8 word ndarray \<Rightarrow> rle option" where
  "mask_encode a =
     (case shape a of
        [h, w] \<Rightarrow> Some \<lparr>rle_size = (h, w), rle_counts = rle_runs 0 0 (fortran_order a h w)\<rparr>
      | _ \<Rightarrow> None)"

definition mask_decode :: "rle \<Rightarrow> 8 word ndarray" where
  "mask_decode r =
     (let (h, w) = rle_size r; buf = rle_expand 0 (rle_counts r)
      in \<lparr>shape = [h, w],
          elt = (\<lambda>i. case i of [y, x] \<Rightarrow> buf ! (x * h + y) | _ \<Rightarrow> 0)\<rparr>)"

text \<open>
  The functions of the module: \<open>encode_mask\<close> casts to \<open>uint8\<close> and lays the array out
  in Fortran order before encoding.
\<close>

definition encode_mask :: "int ndarray \<Rightarrow> rle option" where
  "encode_mask m = mask_encode (astype_uint8 m)"

definition decode_mask :: "rle \<Rightarrow> 8 word ndarray" where
  "decode_mask encoded_mask = mask_decode encoded_mask"

text \<open>A binary mask: every element is 0 or 1.\<close>

definition is_binary :: "int ndarray \<Rightarrow> bool" where
  "is_binary m = list_all (\<lambda>i. elt m i = 0 \<or> elt m i = 1) (indices (shape m))"

section \<open>Properties\<close>

subsection \<open>Shapes and broadcasting\<close>

lemma broadcast_rev_same: "broadcast_rev xs xs = Some xs"
  by (induction xs) auto

lemma broadcast_shapes_same [simp]: "broadcast_shapes s s = Some s"
  by (simp add: broadcast_shapes_def broadcast_rev_same)

lemma broadcast_shapes_one_last [simp]:
  "broadcast_shapes (p @ [Suc 0]) (p @ [c]) = Some (p @ [c])"
  by (simp add: broadcast_shapes_def broadcast_rev_same)

lemma bidx_same_length: "length i = length s \<Longrightarrow> bidx s i = map2 (\<lambda>d k. if d = 1 then 0 else k) s i"
  by (simp add: bidx_def)

lemma bidx_same: "valid_index i s \<Longrightarrow> bidx s i = i"
proof -
  assume v: "valid_index i s"
  then have len: "length i = length s"
    by (simp add: valid_index_def list_all2_lengthD)
  from v have "map2 (\<lambda>d k. if d = 1 then 0 else k) s i = i"
    unfolding valid_index_def by (induction i s rule: list_all2_induct) auto
  with len show ?thesis by (simp add: bidx_same_length)
qed

lemma bidx_one_last:
  assumes "valid_index i p"
  shows "bidx (p @ [Suc 0]) (i @ [k]) = i @ [0]"
proof -
  from assms have len: "length i = length p"
    by (simp add: valid_index_def list_all2_lengthD)
  from assms have "map2 (\<lambda>d k. if d = 1 then 0 else k) p i = i"
    unfolding valid_index_def by (induction i p rule: list_all2_induct) auto
  with len show ?thesis by (simp add: bidx_same_length)
qed

lemma strip_ones_short [simp]: "length v \<le> n \<Longrightarrow> strip_ones n v = v"
  by (cases v) auto

lemma assignable_same [simp]: "assignable s s"
  by (simp add: assignable_def list_all2_same)

lemma assign_idx_same: "valid_index j s \<Longrightarrow> assign_idx s s j = j"
  by (simp add: assign_idx_def bidx_same)

subsection \<open>Geometry of one axis\<close>

lemma slice_indices_dst:
  assumes "a \<le> b"
  shows "slice_indices (np_clip a 0 (int n)) (np_clip b 0 (int n)) n
         = (nat (np_clip a 0 (int n)), nat (np_clip b 0 (int n)))"
  using assms by (auto simp: slice_indices_def slice_index_def np_clip_def Let_def max_def min_def)

lemma slice_indices_src:
  assumes "i1 = i0 + int m"
  shows "\<exists>lo hi. slice_indices (np_clip i0 0 (int n) - i0) (int m + (np_clip i1 0 (int n) - i1)) m
                   = (lo, hi)
           \<and> hi - lo = nat (np_clip i1 0 (int n)) - nat (np_clip i0 0 (int n)) \<and> lo \<le> hi
           \<and> (np_clip i0 0 (int n) < np_clip i1 0 (int n)
                \<longrightarrow> int lo = np_clip i0 0 (int n) - i0 \<and> hi \<le> m)"
proof -
  consider "i0 < 0" "i1 \<le> 0" | "i0 < 0" "0 < i1" "i1 \<le> int n" | "i0 < 0" "int n < i1"
    | "0 \<le> i0" "i1 \<le> int n" | "0 \<le> i0" "i0 \<le> int n" "int n < i1" | "int n < i0"
    using assms by linarith
  then show ?thesis
  proof cases
    case 1 with assms show ?thesis
      by (auto simp: slice_indices_def slice_index_def np_clip_def Let_def)
  next
    case 2 with assms show ?thesis
      by (auto simp: slice_indices_def slice_index_def np_clip_def Let_def)
  next
    case 3 with assms show ?thesis
      by (auto simp: slice_indices_def slice_index_def np_clip_def Let_def)
  next
    case 4 with assms show ?thesis
      by (auto simp: slice_indices_def slice_index_def np_clip_def Let_def)
  next
    case 5 with assms show ?thesis
      by (auto simp: slice_indices_def slice_index_def np_clip_def Let_def)
  next
    case 6 with assms show ?thesis
      by (auto simp: slice_indices_def slice_index_def np_clip_def Let_def)
  qed
qed

lemma getslice2_eq:
  assumes "shape a = h # w # rest"
      and "slice_indices r0 r1 h = (y0, y1)" and "slice_indices c0 c1 w = (x0, x1)"
  shows "getslice2 a (r0, r1) (c0, c1)
         = Inr \<lparr>shape = (y1 - y0) # (x1 - x0) # rest,
                elt = (\<lambda>i. case i of y # x # ch \<Rightarrow> elt a ((y0 + y) # (x0 + x) # ch)
                                   | _ \<Rightarrow> elt a i)\<rparr>"
  using assms by (simp add: getslice2_def)

lemma valid_index_shift:
  "valid_index (y # x # ch) (h # w # rest) \<Longrightarrow> y0 \<le> y \<Longrightarrow> y < y1 \<Longrightarrow> x0 \<le> x \<Longrightarrow> x < x1
   \<Longrightarrow> valid_index ((y - y0) # (x - x0) # ch) ((y1 - y0) # (x1 - x0) # rest)"
  by (auto simp: valid_index_def)

lemma setslice2_eq:
  assumes "shape a = h # w # rest"
      and "slice_indices r0 r1 h = (y0, y1)" and "slice_indices c0 c1 w = (x0, x1)"
      and "shape v = (y1 - y0) # (x1 - x0) # rest"
  shows "\<exists>r. setslice2 a (r0, r1) (c0, c1) v = Inr r \<and> shape r = shape a
           \<and> (\<forall>y x ch. valid_index (y # x # ch) (shape a) \<longrightarrow>
                 elt r (y # x # ch) =
                   (if y0 \<le> y \<and> y < y1 \<and> x0 \<le> x \<and> x < x1
                    then elt v ((y - y0) # (x - x0) # ch) else elt a (y # x # ch)))"
  using assms
  by (auto simp: setslice2_def assign_idx_same valid_index_shift)

lemma setslice2_empty:
  assumes "shape a = h # w # rest"
      and "slice_indices r0 r1 h = (y0, y1)" and "slice_indices c0 c1 w = (x0, x1)"
      and "shape v = (y1 - y0) # (x1 - x0) # rest"
      and "y1 \<le> y0 \<or> x1 \<le> x0"
  shows "setslice2 a (r0, r1) (c0, c1) v = Inr a"
proof -
  have "(\<lambda>i. case i of
               y # x # ch \<Rightarrow>
                 if y0 \<le> y \<and> y < y1 \<and> x0 \<le> x \<and> x < x1
                 then elt v (assign_idx (shape v) ((y1 - y0) # (x1 - x0) # rest)
                               ((y - y0) # (x - x0) # ch))
                 else elt a i
             | _ \<Rightarrow> elt a i) = elt a"
    using assms(5) by (auto simp: fun_eq_iff split: list.splits)
  with assms show ?thesis by (simp add: setslice2_def)
qed

lemma broadcast_shapes_chan [simp]:
  "broadcast_shapes [n, m, Suc 0] [n, m, c] = Some [n, m, c]"
  using broadcast_shapes_one_last [of "[n, m]" c] by simp

lemma bidx_chan:
  "y < n \<Longrightarrow> x < m \<Longrightarrow> bidx [n, m, Suc 0] [y, x, k] = [y, x, 0]"
  using bidx_one_last [of "[y, x]" "[n, m]" k] by (simp add: valid_index_def)

subsection \<open>Rounding to a float format\<close>

text \<open>
  Powers of two, the binary exponent of a rational, and the numbers a format holds: a
  number \<open>m * 2 ^ e\<close> with a significand that fits and an exponent in range is rounded
  to itself, and a number rounded to itself has that form. On the normal numbers below
  the overflow threshold \<open>float_round Float64\<close> is the rounding \<open>fl64\<close> of the gamma
  table.
\<close>

lemma pow2_powi: "pow2 k = 2 powi k"
  by (simp add: pow2_def power_int_def field_simps)

lemma pow2_pos [simp]: "0 < pow2 k"
  by (simp add: pow2_powi)

lemma pow2_add: "pow2 (a + b) = pow2 a * pow2 b"
  by (simp add: pow2_powi power_int_add)

lemma pow2_mono: "a \<le> b \<Longrightarrow> pow2 a \<le> pow2 b"
  by (simp add: pow2_powi power_int_increasing)

lemma pow2_strict_mono: "a < b \<Longrightarrow> pow2 a < pow2 b"
  by (simp add: pow2_powi power_int_strict_increasing)

lemma pow2_less_cancel: "pow2 a < pow2 b \<Longrightarrow> a < b"
  using pow2_mono [of b a] by (cases "a < b") auto

lemma pow2_nat: "0 \<le> k \<Longrightarrow> pow2 k = of_int (2 ^ nat k)"
  by (simp add: pow2_def)


lemma bitlen_bounds:
  "0 < n \<Longrightarrow> 1 \<le> bitlen n \<and> 2 ^ nat (bitlen n - 1) \<le> n \<and> n < 2 ^ nat (bitlen n)"
proof (induction n rule: bitlen.induct)
  case (1 n)
  show ?case
  proof (cases "n = 1")
    case True
    then show ?thesis by (simp add: bitlen.simps [of 1] bitlen.simps [of 0])
  next
    case False
    with "1.prems" have h: "0 < n div 2" "\<not> n \<le> 0" by auto
    from "1.IH" [OF h(2) h(1)] have ih: "1 \<le> bitlen (n div 2)"
      "2 ^ nat (bitlen (n div 2) - 1) \<le> n div 2" "n div 2 < 2 ^ nat (bitlen (n div 2))"
      by auto
    have bl: "bitlen n = 1 + bitlen (n div 2)" using h(2) by (subst bitlen.simps) simp
    have e1: "nat (bitlen n - 1) = Suc (nat (bitlen (n div 2) - 1))" using bl ih(1) by simp
    have e2: "nat (bitlen n) = Suc (nat (bitlen (n div 2)))" using bl ih(1) by simp
    have c1: "1 \<le> bitlen n" using bl ih(1) by simp
    have c2: "2 ^ nat (bitlen n - 1) \<le> n" unfolding e1 using ih(2) by simp
    have c3: "n < 2 ^ nat (bitlen n)" unfolding e2 using ih(3) by simp
    from c1 c2 c3 show ?thesis by blast
  qed
qed

lemma binexp_bounds:
  assumes "0 < x"
  shows "pow2 (binexp x) \<le> x" and "x < pow2 (binexp x + 1)"
proof -
  obtain p q where pq: "quotient_of x = (p, q)" by (cases "quotient_of x")
  then have q: "0 < q" and x: "x = of_int p / of_int q"
    by (simp_all add: quotient_of_denom_pos quotient_of_div)
  with assms have p: "0 < p" by (simp add: zero_less_divide_iff)
  let ?k = "bitlen p - bitlen q"
  from bitlen_bounds [OF p] have bp: "1 \<le> bitlen p" "2 ^ nat (bitlen p - 1) \<le> p" "p < 2 ^ nat (bitlen p)"
    by auto
  from bitlen_bounds [OF q] have bq: "1 \<le> bitlen q" "2 ^ nat (bitlen q - 1) \<le> q" "q < 2 ^ nat (bitlen q)"
    by auto
  have P1: "pow2 (bitlen p - 1) \<le> of_int p" using bp by (simp add: pow2_nat)
  have P2: "of_int p < pow2 (bitlen p)" using bp by (simp add: pow2_nat)
  have Q1: "pow2 (bitlen q - 1) \<le> of_int q" using bq by (simp add: pow2_nat)
  have Q2: "of_int q < pow2 (bitlen q)" using bq by (simp add: pow2_nat)
  have qpos: "(0::rat) < of_int q" using q by simp
  have lower: "pow2 (?k - 1) \<le> x"
  proof -
    have "pow2 (?k - 1) * of_int q \<le> pow2 (?k - 1) * pow2 (bitlen q)"
      using Q2 by (intro mult_left_mono) (simp_all add: less_imp_le)
    also have "\<dots> = pow2 (bitlen p - 1)" by (simp add: pow2_add [symmetric])
    also have "\<dots> \<le> of_int p" by (rule P1)
    finally show ?thesis using qpos by (simp add: x pos_le_divide_eq)
  qed
  have upper: "x < pow2 (?k + 1)"
  proof -
    have "of_int p < pow2 (bitlen p)" by (rule P2)
    also have "\<dots> = pow2 (?k + 1) * pow2 (bitlen q - 1)" by (simp add: pow2_add [symmetric])
    also have "\<dots> \<le> pow2 (?k + 1) * of_int q"
      using Q1 by (intro mult_left_mono) (simp_all add: less_imp_le)
    finally show ?thesis using qpos by (simp add: x pos_divide_less_eq)
  qed
  show "pow2 (binexp x) \<le> x"
    using lower by (simp add: binexp_def pq Let_def)
  show "x < pow2 (binexp x + 1)"
    using upper by (auto simp: binexp_def pq Let_def not_le)
qed

lemma round_half_even_of_int [simp]: "round_half_even (of_int n) = n"
  by (simp add: round_half_even_def Let_def)


lemma round_half_even_nonneg: "0 \<le> x \<Longrightarrow> 0 \<le> round_half_even x"
proof -
  assume "0 \<le> x"
  then have "0 \<le> \<lfloor>x\<rfloor>" by simp
  then show ?thesis by (auto simp: round_half_even_def Let_def)
qed



lemma float_round_fl64:
  assumes lo: "pow2 (- 1022) \<le> \<bar>x\<bar>" and hi: "\<bar>fl64 x\<bar> < pow2 1024"
  shows "float_round Float64 x = Finite (fl64 x)"
proof -
  have pos: "0 < \<bar>x\<bar>" using lo pow2_pos [of "- 1022"] by linarith
  then have nz: "x \<noteq> 0" by simp
  have "pow2 (- 1022) < pow2 (binexp \<bar>x\<bar> + 1)"
    using lo binexp_bounds(2) [OF pos] by linarith
  then have "- 1022 < binexp \<bar>x\<bar> + 1" by (rule pow2_less_cancel)
  then have e: "max (binexp \<bar>x\<bar>) (emin Float64) = binexp \<bar>x\<bar>" by (simp add: emin_def)
  define m where "m = round_half_even (\<bar>x\<bar> * pow2 (52 - binexp \<bar>x\<bar>))"
  have m0: "0 \<le> m" unfolding m_def
    by (intro round_half_even_nonneg mult_nonneg_nonneg) (simp_all add: less_imp_le)
  have f: "fl64 x = sgn x * (of_int m * pow2 (binexp \<bar>x\<bar> - 52))"
    using nz by (simp add: fl64_def Let_def m_def mult.assoc)
  have "\<bar>fl64 x\<bar> = \<bar>sgn x\<bar> * \<bar>of_int m * pow2 (binexp \<bar>x\<bar> - 52)\<bar>"
    unfolding f by (simp only: abs_mult)
  also have "\<bar>sgn x\<bar> = 1" using nz by (simp add: abs_sgn_eq)
  also have "\<bar>of_int m * pow2 (binexp \<bar>x\<bar> - 52)\<bar> = of_int m * pow2 (binexp \<bar>x\<bar> - 52)"
    using m0 by (intro abs_of_nonneg mult_nonneg_nonneg) (simp_all add: less_imp_le)
  finally have "of_int m * pow2 (binexp \<bar>x\<bar> - 52) < pow2 1024" using hi by simp
  then show ?thesis
    using nz unfolding f
    by (simp add: float_round_def Let_def e precision_def emax_def m_def [symmetric] not_le)
qed

subsection \<open>Elements of one dtype in another\<close>

text \<open>
  Promotion loses nothing: every \<open>uint8\<close> value is a \<open>float32\<close> number and every
  \<open>float32\<close> number is a \<open>float64\<close> number. Hence multiplying by one and adding zero
  in a promoted dtype return the operand, and the blend with weight one over a finite
  destination value is the source value.
\<close>

lemma float_round_zero [simp]: "float_round dt 0 = Finite 0"
  by (simp add: float_round_def)






lemma np_sub_one_one [simp]: "np_sub dt (Finite 1) (Finite 1) = Finite 0"
  by (simp add: np_sub_def uint8_op_def vneg_def)

lemma np_mul_zero_finite [simp]: "np_mul dt (Finite 0) (Finite d) = Finite 0"
  by (simp add: np_mul_def uint8_op_def)


subsection \<open>The blend of two regions\<close>

lemma blend_same_shape:
  assumes "shape (data al) = s" "shape (data rs) = s" "shape (data rd) = s"
  shows "\<exists>b. blend al rs rd = Inr b \<and> shape (data b) = s
           \<and> dtype b = promote (promote (dtype al) (dtype rs)) (promote (dtype al) (dtype rd))
           \<and> (\<forall>j. valid_index j s \<longrightarrow>
                 elt (data b) j
                 = blend_value (dtype al) (dtype rs) (dtype rd)
                     (elt (data al) j) (elt (data rs) j) (elt (data rd) j))"
  using assms
  by (simp add: blend_def multiply_def add_def one_minus_def elementwise_def and_then_def
      Let_def bidx_same blend_value_def)

lemma blend_alpha_plane:
  assumes "shape (data al) = [n, m, 1]" "shape (data rs) = [n, m, c]" "shape (data rd) = [n, m, c]"
  shows "\<exists>b. blend al rs rd = Inr b \<and> shape (data b) = [n, m, c]
           \<and> dtype b = promote (promote (dtype al) (dtype rs)) (promote (dtype al) (dtype rd))
           \<and> (\<forall>y x k. y < n \<and> x < m \<and> k < c \<longrightarrow>
                 elt (data b) [y, x, k]
                 = blend_value (dtype al) (dtype rs) (dtype rd)
                     (elt (data al) [y, x, 0]) (elt (data rs) [y, x, k]) (elt (data rd) [y, x, k]))"
proof -
  have v: "\<And>y x k. y < n \<Longrightarrow> x < m \<Longrightarrow> k < c \<Longrightarrow> valid_index [y, x, k] [n, m, c]"
    by (simp add: valid_index_def)
  show ?thesis
    using assms
    by (simp add: blend_def multiply_def add_def one_minus_def elementwise_def and_then_def
        Let_def bidx_same bidx_chan blend_value_def v)
qed

lemma blend_general:
  assumes "shape (data al) = n # m # as" "shape (data rs) = n # m # cs"
      and "shape (data rd) = n # m # cs"
      and "as = cs \<or> (as = [1] \<and> length cs = 1)"
  shows "\<exists>b. blend al rs rd = Inr b \<and> shape (data b) = n # m # cs
           \<and> dtype b = promote (promote (dtype al) (dtype rs)) (promote (dtype al) (dtype rd))
           \<and> (\<forall>y x ch. valid_index (y # x # ch) (n # m # cs) \<longrightarrow>
                 elt (data b) (y # x # ch)
                 = blend_value (dtype al) (dtype rs) (dtype rd)
                     (elt (data al) (y # x # (if as = cs then ch else [0])))
                     (elt (data rs) (y # x # ch)) (elt (data rd) (y # x # ch)))"
proof (cases "as = cs")
  case True
  with assms blend_same_shape [of al "n # m # cs" rs rd] show ?thesis by auto
next
  case False
  with assms(4) obtain c where cs: "cs = [c]" and as: "as = [1]"
    by (cases cs) auto
  from blend_alpha_plane [of al n m rs c rd] assms(1-3) cs as
  obtain b where b: "blend al rs rd = Inr b" "shape (data b) = [n, m, c]"
      "dtype b = promote (promote (dtype al) (dtype rs)) (promote (dtype al) (dtype rd))"
    and px: "\<And>y x k. y < n \<Longrightarrow> x < m \<Longrightarrow> k < c \<Longrightarrow>
       elt (data b) [y, x, k]
       = blend_value (dtype al) (dtype rs) (dtype rd)
           (elt (data al) [y, x, 0]) (elt (data rs) [y, x, k]) (elt (data rd) [y, x, k])"
    by auto
  have "elt (data b) (y # x # ch)
        = blend_value (dtype al) (dtype rs) (dtype rd)
            (elt (data al) (y # x # (if as = cs then ch else [0])))
            (elt (data rs) (y # x # ch)) (elt (data rd) (y # x # ch))"
    if "valid_index (y # x # ch) (n # m # cs)" for y x ch
  proof -
    from that cs obtain k where "ch = [k]" "y < n" "x < m" "k < c"
      by (auto simp: valid_index_def list_all2_Cons2)
    with px [of y x k] False show ?thesis by simp
  qed
  with b cs show ?thesis by auto
qed

lemma alpha_like_shape:
  assumes "shape (data im_src) = h # w # cs" "length cs \<le> 1" "alpha_fits alpha im_src"
  shows "\<exists>as. shape (data (alpha_like (alpha_or_ones alpha im_src) im_src)) = h # w # as
           \<and> dtype (alpha_like (alpha_or_ones alpha im_src) im_src) = alpha_dtype alpha
           \<and> (as = cs \<or> (as = [1] \<and> length cs = 1))
           \<and> (\<forall>y x ch. valid_index ch cs \<longrightarrow>
                 elt (data (alpha_like (alpha_or_ones alpha im_src) im_src))
                     (y # x # (if as = cs then ch else [0]))
                 = alpha_at alpha y x ch)"
proof (cases cs)
  case Nil
  with assms show ?thesis
    by (auto simp: alpha_like_def alpha_or_ones_def alpha_fits_def alpha_at_def np_ones_def
        alpha_dtype_def valid_index_def split: option.splits)
next
  case (Cons c cs')
  with assms(2) have cs: "cs = [c]" by simp
  show ?thesis
  proof (cases alpha)
    case None
    with assms cs show ?thesis
      by (auto simp: alpha_like_def alpha_or_ones_def alpha_at_def np_ones_def
          alpha_dtype_def expand_dims_last_def)
  next
    case (Some a)
    with assms cs consider "shape (data a) = [h, w]" | "shape (data a) = [h, w, c]"
      by (auto simp: alpha_fits_def)
    then show ?thesis
    proof cases
      case 1
      with Some assms cs show ?thesis
        by (auto simp: alpha_like_def alpha_or_ones_def alpha_at_def expand_dims_last_def
            alpha_dtype_def valid_index_def list_all2_Cons2)
    next
      case 2
      with Some assms cs show ?thesis
        by (auto simp: alpha_like_def alpha_or_ones_def alpha_at_def alpha_dtype_def)
    qed
  qed
qed

subsection \<open>The pixels of the result\<close>

lemma geometry_fst_snd:
  "fst (ideal_end_dst whs c) = fst (ideal_start_dst whs c) + fst whs"
  "snd (ideal_end_dst whs c) = snd (ideal_start_dst whs c) + snd whs"
  "fst (start_dst whs whd c) = np_clip (fst (ideal_start_dst whs c)) 0 (fst whd)"
  "snd (start_dst whs whd c) = np_clip (snd (ideal_start_dst whs c)) 0 (snd whd)"
  "fst (end_dst whs whd c) = np_clip (fst (ideal_start_dst whs c) + fst whs) 0 (fst whd)"
  "snd (end_dst whs whd c) = np_clip (snd (ideal_start_dst whs c) + snd whs) 0 (snd whd)"
  "fst (start_src whs whd c)
     = np_clip (fst (ideal_start_dst whs c)) 0 (fst whd) - fst (ideal_start_dst whs c)"
  "snd (start_src whs whd c)
     = np_clip (snd (ideal_start_dst whs c)) 0 (snd whd) - snd (ideal_start_dst whs c)"
  "fst (end_src whs whd c)
     = fst whs + (np_clip (fst (ideal_start_dst whs c) + fst whs) 0 (fst whd)
                  - (fst (ideal_start_dst whs c) + fst whs))"
  "snd (end_src whs whd c)
     = snd whs + (np_clip (snd (ideal_start_dst whs c) + snd whs) 0 (snd whd)
                  - (snd (ideal_start_dst whs c) + snd whs))"
  by (simp_all add: ideal_end_dst_def start_dst_def end_dst_def start_src_def end_src_def
      v_add_def v_sub_def v_clip_def)

lemma np_clip_bounds: "0 \<le> np_clip a 0 (int n)" "np_clip a 0 (int n) \<le> int n"
  by (auto simp: np_clip_def)

lemma np_clip_mono: "a \<le> b \<Longrightarrow> np_clip a 0 (int n) \<le> np_clip b 0 (int n)"
  by (auto simp: np_clip_def)

lemma paste_over_general:
  fixes im_src im_dst :: nparray and alpha :: "nparray option"
    and center :: vec2 and h w H W :: nat and cs :: "nat list"
  assumes src: "shape (data im_src) = h # w # cs" and dst: "shape (data im_dst) = H # W # cs"
      and cs: "length cs \<le> 1" and al: "alpha_fits alpha im_src"
  defines "ix \<equiv> fst (ideal_start_dst (int w, int h) center)"
      and "iy \<equiv> snd (ideal_start_dst (int w, int h) center)"
  defines "sx \<equiv> np_clip ix 0 (int W)" and "ex \<equiv> np_clip (ix + int w) 0 (int W)"
      and "sy \<equiv> np_clip iy 0 (int H)" and "ey \<equiv> np_clip (iy + int h) 0 (int H)"
  shows "\<exists>r. paste_over im_src im_dst alpha center = Inr r
           \<and> shape (data r) = shape (data im_dst) \<and> dtype r = dtype im_dst
           \<and> (\<forall>y x ch. valid_index (y # x # ch) (shape (data im_dst)) \<longrightarrow>
                 elt (data r) (y # x # ch) =
                   (if sy \<le> int y \<and> int y < ey \<and> sx \<le> int x \<and> int x < ex
                    then np_cast (dtype im_dst)
                           (blend_value (alpha_dtype alpha) (dtype im_src) (dtype im_dst)
                              (alpha_at alpha (nat (int y - iy)) (nat (int x - ix)) ch)
                              (elt (data im_src) (nat (int y - iy) # nat (int x - ix) # ch))
                              (elt (data im_dst) (y # x # ch)))
                    else elt (data im_dst) (y # x # ch)))
           \<and> (ey \<le> sy \<or> ex \<le> sx \<longrightarrow> r = im_dst)"
proof -
  have dy: "slice_indices sy ey H = (nat sy, nat ey)"
    unfolding sy_def ey_def by (rule slice_indices_dst) simp
  have dx: "slice_indices sx ex W = (nat sx, nat ex)"
    unfolding sx_def ex_def by (rule slice_indices_dst) simp
  have le: "sy \<le> ey" "sx \<le> ex" "0 \<le> sy" "0 \<le> sx"
    unfolding sy_def ey_def sx_def ex_def by (simp_all add: np_clip_mono np_clip_bounds)
  from slice_indices_src [of "iy + int h" iy h H]
  obtain ly hy where sly: "slice_indices (sy - iy) (int h + (ey - (iy + int h))) h = (ly, hy)"
    and ny: "hy - ly = nat ey - nat sy"
    and oy: "sy < ey \<Longrightarrow> int ly = sy - iy"
    unfolding sy_def ey_def by auto
  from slice_indices_src [of "ix + int w" ix w W]
  obtain lx hx where slx: "slice_indices (sx - ix) (int w + (ex - (ix + int w))) w = (lx, hx)"
    and nx: "hx - lx = nat ex - nat sx"
    and ox: "sx < ex \<Longrightarrow> int lx = sx - ix"
    unfolding sx_def ex_def by auto
  let ?al = "alpha_like (alpha_or_ones alpha im_src) im_src"
  from alpha_like_shape [OF src cs al]
  obtain as where as: "shape (data ?al) = h # w # as" "as = cs \<or> (as = [1] \<and> length cs = 1)"
    and adt: "dtype ?al = alpha_dtype alpha"
    and av: "\<And>y x ch. valid_index ch cs \<Longrightarrow>
               elt (data ?al) (y # x # (if as = cs then ch else [0])) = alpha_at alpha y x ch"
    by blast
  let ?ny = "nat ey - nat sy" and ?nx = "nat ex - nat sx"
  define region_dst where "region_dst = im_dst\<lparr>data :=
    \<lparr>shape = ?ny # ?nx # cs,
     elt = (\<lambda>i. case i of y # x # ch \<Rightarrow> elt (data im_dst) ((nat sy + y) # (nat sx + x) # ch)
                        | _ \<Rightarrow> elt (data im_dst) i)\<rparr>\<rparr>"
  define alpha3 where "alpha3 = ?al\<lparr>data :=
    \<lparr>shape = ?ny # ?nx # as,
     elt = (\<lambda>i. case i of y # x # ch \<Rightarrow> elt (data ?al) ((ly + y) # (lx + x) # ch)
                        | _ \<Rightarrow> elt (data ?al) i)\<rparr>\<rparr>"
  define region_src where "region_src = im_src\<lparr>data :=
    \<lparr>shape = ?ny # ?nx # cs,
     elt = (\<lambda>i. case i of y # x # ch \<Rightarrow> elt (data im_src) ((ly + y) # (lx + x) # ch)
                        | _ \<Rightarrow> elt (data im_src) i)\<rparr>\<rparr>"
  have g1: "slice2 im_dst (sy, ey) (sx, ex) = Inr region_dst"
    unfolding region_dst_def slice2_def using getslice2_eq [OF dst dy dx]
    by (simp add: and_then_def)
  have g2: "slice2 ?al (sy - iy, int h + (ey - (iy + int h)))
              (sx - ix, int w + (ex - (ix + int w))) = Inr alpha3"
    unfolding alpha3_def slice2_def using getslice2_eq [OF as(1) sly slx] ny nx
    by (simp add: and_then_def)
  have g3: "slice2 im_src (sy - iy, int h + (ey - (iy + int h)))
              (sx - ix, int w + (ex - (ix + int w))) = Inr region_src"
    unfolding region_src_def slice2_def using getslice2_eq [OF src sly slx] ny nx
    by (simp add: and_then_def)
  have dts: "dtype alpha3 = alpha_dtype alpha" "dtype region_src = dtype im_src"
    "dtype region_dst = dtype im_dst"
    by (simp_all add: alpha3_def region_src_def region_dst_def adt)
  from blend_general [of alpha3 ?ny ?nx as region_src cs region_dst] as(2)
  obtain b where b: "blend alpha3 region_src region_dst = Inr b"
      "shape (data b) = ?ny # ?nx # cs"
    and bv: "\<And>y x ch. valid_index (y # x # ch) (?ny # ?nx # cs) \<Longrightarrow>
               elt (data b) (y # x # ch)
               = blend_value (alpha_dtype alpha) (dtype im_src) (dtype im_dst)
                   (elt (data alpha3) (y # x # (if as = cs then ch else [0])))
                   (elt (data region_src) (y # x # ch)) (elt (data region_dst) (y # x # ch))"
    unfolding dts [symmetric] by (auto simp: alpha3_def region_src_def region_dst_def)
  have unfold: "paste_over im_src im_dst alpha center = assign2 im_dst (sy, ey) (sx, ex) b"
    using src dst g1 g2 g3 b(1)
    by (simp add: paste_over_def Let_def geometry_fst_snd and_then_def
        ix_def [symmetric] iy_def [symmetric] sx_def [symmetric] sy_def [symmetric]
        ex_def [symmetric] ey_def [symmetric])
  let ?v = "data (astype (dtype im_dst) b)"
  have vs: "shape ?v = ?ny # ?nx # cs" using b(2) by (simp add: astype_def)
  have ve: "elt ?v i = np_cast (dtype im_dst) (elt (data b) i)" for i
    by (simp add: astype_def)
  from setslice2_eq [OF dst dy dx vs]
  obtain r' where r': "setslice2 (data im_dst) (sy, ey) (sx, ex) ?v = Inr r'"
      "shape r' = shape (data im_dst)"
    and rv: "\<And>y x ch. valid_index (y # x # ch) (shape (data im_dst)) \<Longrightarrow>
               elt r' (y # x # ch) =
                 (if nat sy \<le> y \<and> y < nat ey \<and> nat sx \<le> x \<and> x < nat ex
                  then elt ?v ((y - nat sy) # (x - nat sx) # ch)
                  else elt (data im_dst) (y # x # ch))"
    by blast
  define r where "r = im_dst\<lparr>data := r'\<rparr>"
  have res: "paste_over im_src im_dst alpha center = Inr r"
    unfolding unfold assign2_def r_def using r'(1) by (simp add: and_then_def)
  have rsh: "shape (data r) = shape (data im_dst)" "dtype r = dtype im_dst"
    using r'(2) by (simp_all add: r_def)
  have px: "elt (data r) (y # x # ch) =
              (if sy \<le> int y \<and> int y < ey \<and> sx \<le> int x \<and> int x < ex
               then np_cast (dtype im_dst)
                      (blend_value (alpha_dtype alpha) (dtype im_src) (dtype im_dst)
                         (alpha_at alpha (nat (int y - iy)) (nat (int x - ix)) ch)
                         (elt (data im_src) (nat (int y - iy) # nat (int x - ix) # ch))
                         (elt (data im_dst) (y # x # ch)))
               else elt (data im_dst) (y # x # ch))"
    if v: "valid_index (y # x # ch) (shape (data im_dst))" for y x ch
  proof (cases "sy \<le> int y \<and> int y < ey \<and> sx \<le> int x \<and> int x < ex")
    case False
    with rv [OF v] le show ?thesis by (auto simp: nat_le_iff r_def)
  next
    case True
    then have inr: "nat sy \<le> y" "y < nat ey" "nat sx \<le> x" "x < nat ex"
      using le by linarith+
    from True have ne: "sy < ey" "sx < ex" by linarith+
    have ys: "ly + (y - nat sy) = nat (int y - iy)" using oy [OF ne(1)] inr le by linarith
    have xs: "lx + (x - nat sx) = nat (int x - ix)" using ox [OF ne(2)] inr le by linarith
    have yd: "nat sy + (y - nat sy) = y" "nat sx + (x - nat sx) = x" using inr by linarith+
    from v dst have vch: "valid_index ch cs" by (simp add: valid_index_def)
    from v dst have v': "valid_index ((y - nat sy) # (x - nat sx) # ch) (?ny # ?nx # cs)"
      using inr by (intro valid_index_shift [of y x ch H W cs]) simp_all
    have "elt (data r) (y # x # ch) = elt ?v ((y - nat sy) # (x - nat sx) # ch)"
      using rv [OF v] inr by (simp add: r_def)
    also have "\<dots> = np_cast (dtype im_dst)
                        (blend_value (alpha_dtype alpha) (dtype im_src) (dtype im_dst)
                           (elt (data ?al) (nat (int y - iy) # nat (int x - ix)
                                            # (if as = cs then ch else [0])))
                           (elt (data im_src) (nat (int y - iy) # nat (int x - ix) # ch))
                           (elt (data im_dst) (y # x # ch)))"
      unfolding ve using bv [OF v']
      by (simp add: alpha3_def region_src_def region_dst_def ys xs yd)
    also have "\<dots> = np_cast (dtype im_dst)
                        (blend_value (alpha_dtype alpha) (dtype im_src) (dtype im_dst)
                           (alpha_at alpha (nat (int y - iy)) (nat (int x - ix)) ch)
                           (elt (data im_src) (nat (int y - iy) # nat (int x - ix) # ch))
                           (elt (data im_dst) (y # x # ch)))"
      using av [OF vch] by simp
    finally show ?thesis using True by simp
  qed
  have empty: "r = im_dst" if "ey \<le> sy \<or> ex \<le> sx"
  proof -
    from that have "nat ey \<le> nat sy \<or> nat ex \<le> nat sx" by linarith
    from setslice2_empty [OF dst dy dx vs this] r'(1) show ?thesis by (simp add: r_def)
  qed
  from res rsh px empty show ?thesis by auto
qed

lemma covered_clip:
  assumes "y < H" "x < W"
  shows "(np_clip iy 0 (int H) \<le> int y \<and> int y < np_clip (iy + int h) 0 (int H)
          \<and> np_clip ix 0 (int W) \<le> int x \<and> int x < np_clip (ix + int w) 0 (int W))
         = (iy \<le> int y \<and> int y < iy + int h \<and> ix \<le> int x \<and> int x < ix + int w)"
  using assms by (auto simp: np_clip_def)

lemma paste_over_pixels:
  fixes im_src im_dst :: nparray
  assumes src: "shape (data im_src) = h # w # cs" and dst: "shape (data im_dst) = H # W # cs"
      and cs: "length cs \<le> 1" and al: "alpha_fits alpha im_src"
  shows "\<exists>r. paste_over im_src im_dst alpha center = Inr r
           \<and> shape (data r) = shape (data im_dst) \<and> dtype r = dtype im_dst
           \<and> (\<forall>y x ch. valid_index (y # x # ch) (shape (data im_dst)) \<longrightarrow>
                 elt (data r) (y # x # ch) =
                   (if covered (int w, int h) center y x
                    then np_cast (dtype im_dst)
                           (blend_value (alpha_dtype alpha) (dtype im_src) (dtype im_dst)
                              (alpha_at alpha (src_row (int w, int h) center y)
                                 (src_col (int w, int h) center x) ch)
                              (elt (data im_src) (src_row (int w, int h) center y
                                                  # src_col (int w, int h) center x # ch))
                              (elt (data im_dst) (y # x # ch)))
                    else elt (data im_dst) (y # x # ch)))"
proof -
  let ?ix = "fst (ideal_start_dst (int w, int h) center)"
  let ?iy = "snd (ideal_start_dst (int w, int h) center)"
  from paste_over_general [OF src dst cs al, of center]
  obtain r where r: "paste_over im_src im_dst alpha center = Inr r"
      "shape (data r) = shape (data im_dst)" "dtype r = dtype im_dst"
    and px: "\<And>y x ch. valid_index (y # x # ch) (shape (data im_dst)) \<Longrightarrow>
       elt (data r) (y # x # ch) =
         (if np_clip ?iy 0 (int H) \<le> int y \<and> int y < np_clip (?iy + int h) 0 (int H)
             \<and> np_clip ?ix 0 (int W) \<le> int x \<and> int x < np_clip (?ix + int w) 0 (int W)
          then np_cast (dtype im_dst)
                 (blend_value (alpha_dtype alpha) (dtype im_src) (dtype im_dst)
                    (alpha_at alpha (nat (int y - ?iy)) (nat (int x - ?ix)) ch)
                    (elt (data im_src) (nat (int y - ?iy) # nat (int x - ?ix) # ch))
                    (elt (data im_dst) (y # x # ch)))
          else elt (data im_dst) (y # x # ch))"
    by blast
  have "elt (data r) (y # x # ch) =
          (if covered (int w, int h) center y x
           then np_cast (dtype im_dst)
                  (blend_value (alpha_dtype alpha) (dtype im_src) (dtype im_dst)
                     (alpha_at alpha (src_row (int w, int h) center y)
                        (src_col (int w, int h) center x) ch)
                     (elt (data im_src) (src_row (int w, int h) center y
                                         # src_col (int w, int h) center x # ch))
                     (elt (data im_dst) (y # x # ch)))
           else elt (data im_dst) (y # x # ch))"
    if v: "valid_index (y # x # ch) (shape (data im_dst))" for y x ch
  proof -
    from v dst have "y < H" "x < W" by (simp_all add: valid_index_def)
    from covered_clip [OF this, of ?iy h ?ix w] px [OF v]
    show ?thesis by (simp add: covered_def src_row_def src_col_def geometry_fst_snd)
  qed
  with r show ?thesis by blast
qed

subsection \<open>Unblended overwrite and equality of images\<close>

lemma set_indices: "set (indices s) = {i. valid_index i s}"
proof (induction s)
  case Nil
  show ?case by (auto simp: valid_index_def)
next
  case (Cons n ns)
  then show ?case
    by (auto simp: valid_index_def list_all2_Cons2)
qed


lemma same_imageD:
  "same_image a b \<Longrightarrow> valid_index i (shape a) \<Longrightarrow> elt a i = elt b i"
  by (simp add: same_image_def list_all_iff set_indices)






subsection \<open>Shape of the result, and a call that succeeds\<close>

lemma setslice2_shape: "setslice2 a rows cols v = Inr r \<Longrightarrow> shape r = shape a"
  by (auto simp: setslice2_def Let_def split: list.splits prod.splits if_splits)

lemma paste_over_shape:
  assumes "paste_over im_src im_dst alpha center = Inr r"
  shows "shape (data r) = shape (data im_dst)" "dtype r = dtype im_dst"
  using assms
  by (auto simp: paste_over_def Let_def and_then_def assign2_def dest: setslice2_shape
           split: if_splits sum.splits)

lemma paste_over_sample_succeeds:
  "\<exists>r. paste_over src0 dst0 (Some alpha0) (2, 1) = Inr r"
proof -
  have h: "shape (data src0) = [2, 2, 3]" "shape (data dst0) = [4, 5, 3]" "length [3::nat] \<le> 1"
    "alpha_fits (Some alpha0) src0"
    by (simp_all add: src0_def dst0_def alpha0_def alpha_fits_def)
  from paste_over_general [OF h, of "(2, 1)"] show ?thesis by blast
qed

subsection \<open>\<open>paste_over\<close>\<close>

text \<open>
  The statements below are about images of one channel layout. Images of different
  channel counts cannot be blended, wherever the source is placed: numpy checks the
  shapes of empty operands too.
\<close>

lemma paste_over_channel_mismatch:
  "(case paste_over src0 dst4 None (- 9, 4) of Inl e \<Rightarrow> e = ValueError | Inr r \<Rightarrow> False)"
  by code_simp

text \<open>The placement of the sample source, and one blended pixel of it.\<close>

lemma sample_geometry:
  "ideal_start_dst (2, 2) (2, 1) = (1, 0)" "ideal_end_dst (2, 2) (2, 1) = (3, 2)"
  "ideal_start_dst (2, 2) (0, 0) = (- 1, - 1)" "ideal_end_dst (2, 2) (0, 0) = (1, 1)"
  by (simp_all add: ideal_start_dst_def ideal_end_dst_def v_add_def v_sub_def v_floordiv_def
      to_int32_def)

lemma sample_blend:
  "np_cast UInt8 (blend_value Float32 UInt8 UInt8 (Finite (1 / 2)) (Finite 111) (Finite 12))
   = Finite 61"
  by code_simp

text \<open>
  C1, as stated: for a source placed fully inside the destination, the pixels inside the
  placed region equal \<open>alpha * src + (1 - alpha) * dst\<close>. This fails on a \<open>uint8\<close>
  destination: the blend is computed in a float dtype and the assignment truncates it.
  With \<open>alpha = 1 / 2\<close>, a source pixel of 100 and a destination pixel of 1 the blend is
  \<open>101 / 2\<close> and the pixel stored is 50. Rounding alone lowers the stored value too:
  with the \<open>float32\<close> nearest to \<open>1 / 10\<close> as weight, source and destination pixel both
  3, the blend in \<open>float32\<close> is just below 3 and the pixel stored is 2.
\<close>

theorem paste_over_truncates_blend:
  "(case paste_over src0 dst0 (Some alpha0) (2, 1) of
      Inl e \<Rightarrow> False
    | Inr r \<Rightarrow> elt (data r) [0, 1, 0] = Finite 50)
   \<and> fully_inside (2, 2) (5, 4) (2, 1) \<and> covered (2, 2) (2, 1) 0 1
   \<and> src_row (2, 2) (2, 1) 0 = 0 \<and> src_col (2, 2) (2, 1) 1 = 0
   \<and> elt (data alpha0) [0, 0] = Finite (1 / 2)
   \<and> elt (data src0) [0, 0, 0] = Finite 100 \<and> elt (data dst0) [0, 1, 0] = Finite 1
   \<and> blend_value Float32 UInt8 UInt8 (Finite (1 / 2)) (Finite 100) (Finite 1) = Finite (101 / 2)
   \<and> (case paste_over src3 src3 (Some alpha_tenth) (0, 0) of
      Inl e \<Rightarrow> False
    | Inr r \<Rightarrow> elt (data r) [0, 0] = Finite 2)
   \<and> fully_inside (1, 1) (1, 1) (0, 0) \<and> covered (1, 1) (0, 0) 0 0
   \<and> src_row (1, 1) (0, 0) 0 = 0 \<and> src_col (1, 1) (0, 0) 0 = 0
   \<and> float_round Float32 (1 / 10) = elt (data alpha_tenth) [0, 0]
   \<and> elt (data src3) [0, 0] = Finite 3
   \<and> blend_value Float32 UInt8 UInt8 (elt (data alpha_tenth) [0, 0]) (Finite 3) (Finite 3)
     = Finite (12582911 / 4194304)"
  by code_simp

text \<open>
  C1, amended: a source placed fully inside the destination. For images of the same
  channel layout (two- or three-dimensional) and an alpha map that is absent, has the
  source's height and width, or has the source's shape, \<open>paste_over\<close> returns an image
  of the destination's shape and dtype; a pixel covered by the placement rectangle is
  \<open>alpha * src + (1 - alpha) * dst\<close> of the source pixel it lies on, evaluated in numpy's
  arithmetic on the dtypes of the three arrays and converted into the destination's
  dtype; every other pixel is the destination's; and the placement rectangle lies
  within the destination.
\<close>

theorem paste_over_fully_inside:
  fixes im_src im_dst :: nparray
  assumes "shape (data im_src) = h # w # cs" and "shape (data im_dst) = H # W # cs"
      and "length cs \<le> 1" and "alpha_fits alpha im_src"
      and "fully_inside (int w, int h) (int W, int H) center"
  shows "\<exists>r. paste_over im_src im_dst alpha center = Inr r
           \<and> shape (data r) = shape (data im_dst) \<and> dtype r = dtype im_dst
           \<and> (\<forall>y x ch. valid_index (y # x # ch) (shape (data im_dst)) \<longrightarrow>
                 elt (data r) (y # x # ch) =
                   (if covered (int w, int h) center y x
                    then np_cast (dtype im_dst)
                           (blend_value (alpha_dtype alpha) (dtype im_src) (dtype im_dst)
                              (alpha_at alpha (src_row (int w, int h) center y)
                                 (src_col (int w, int h) center x) ch)
                              (elt (data im_src) (src_row (int w, int h) center y
                                                  # src_col (int w, int h) center x # ch))
                              (elt (data im_dst) (y # x # ch)))
                    else elt (data im_dst) (y # x # ch)))
           \<and> (\<forall>y x. covered (int w, int h) center y x \<longrightarrow> y < H \<and> x < W)"
proof -
  have "y < H \<and> x < W" if "covered (int w, int h) center y x" for y x
    using that assms(5) by (auto simp: covered_def fully_inside_def)
  with paste_over_pixels [OF assms(1-4), of center] show ?thesis by blast
qed

theorem paste_over_fully_inside_witness:
  "shape (data src0) = [2, 2, 3] \<and> shape (data dst0) = [4, 5, 3]
   \<and> alpha_fits (Some alpha0) src0 \<and> fully_inside (2, 2) (5, 4) (2, 1)
   \<and> (\<exists>r. paste_over src0 dst0 (Some alpha0) (2, 1) = Inr r \<and> shape (data r) = [4, 5, 3]
          \<and> dtype r = UInt8
          \<and> elt (data r) [1, 2, 0] = Finite 61 \<and> elt (data r) [3, 4, 0] = Finite 34)"
proof -
  have h: "shape (data src0) = [2, 2, 3]" "shape (data dst0) = [4, 5, 3]" "length [3::nat] \<le> 1"
    "alpha_fits (Some alpha0) src0" "fully_inside (int 2, int 2) (int 5, int 4) (2, 1)"
    by (simp_all add: src0_def dst0_def alpha0_def alpha_fits_def fully_inside_def
        sample_geometry)
  from paste_over_fully_inside [OF h]
  obtain r where r: "paste_over src0 dst0 (Some alpha0) (2, 1) = Inr r"
      "shape (data r) = shape (data dst0)" "dtype r = dtype dst0"
    and px: "\<And>y x ch. valid_index (y # x # ch) (shape (data dst0)) \<Longrightarrow>
       elt (data r) (y # x # ch) =
         (if covered (int 2, int 2) (2, 1) y x
          then np_cast (dtype dst0)
                 (blend_value (alpha_dtype (Some alpha0)) (dtype src0) (dtype dst0)
                    (alpha_at (Some alpha0) (src_row (int 2, int 2) (2, 1) y)
                       (src_col (int 2, int 2) (2, 1) x) ch)
                    (elt (data src0) (src_row (int 2, int 2) (2, 1) y
                                      # src_col (int 2, int 2) (2, 1) x # ch))
                    (elt (data dst0) (y # x # ch)))
          else elt (data dst0) (y # x # ch))"
    by blast
  have "elt (data r) [1, 2, 0] = Finite 61"
    using px [of 1 2 "[0]"] sample_blend
    by (simp add: src0_def dst0_def alpha0_def valid_index_def covered_def src_row_def
        src_col_def alpha_at_def alpha_dtype_def sample_geometry)
  moreover have "elt (data r) [3, 4, 0] = Finite 34"
    using px [of 3 4 "[0]"]
    by (simp add: src0_def dst0_def alpha0_def valid_index_def covered_def src_row_def
        src_col_def alpha_at_def alpha_dtype_def sample_geometry)
  ultimately show ?thesis using h r by (simp add: dst0_def)
qed

text \<open>
  C2: a source whose clamped overlap with the destination is empty (the ideal placement
  rectangle lies outside the destination bounds). For images of the same channel layout
  and a fitting alpha the call succeeds and returns the destination unchanged.
\<close>

theorem paste_over_fully_outside:
  fixes im_src im_dst :: nparray
  assumes "shape (data im_src) = h # w # cs" and "shape (data im_dst) = H # W # cs"
      and "length cs \<le> 1" and "alpha_fits alpha im_src"
      and "overlap_empty (int w, int h) (int W, int H) center"
  shows "paste_over im_src im_dst alpha center = Inr im_dst"
  using paste_over_general [OF assms(1-4), of center] assms(5)
  by (auto simp: overlap_empty_def geometry_fst_snd)

theorem paste_over_fully_outside_witness:
  "shape (data src0) = [2, 2, 3] \<and> shape (data dst0) = [4, 5, 3]
   \<and> alpha_fits (Some alpha0) src0 \<and> overlap_empty (2, 2) (5, 4) (- 9, 4)
   \<and> paste_over src0 dst0 (Some alpha0) (- 9, 4) = Inr dst0"
proof -
  have h: "shape (data src0) = [2, 2, 3]" "shape (data dst0) = [4, 5, 3]" "length [3::nat] \<le> 1"
    "alpha_fits (Some alpha0) src0" "overlap_empty (int 2, int 2) (int 5, int 4) (- 9, 4)"
    by (simp_all add: src0_def dst0_def alpha0_def alpha_fits_def overlap_empty_def
        start_dst_def end_dst_def v_clip_def np_clip_def
        ideal_start_dst_def ideal_end_dst_def v_add_def v_sub_def v_floordiv_def to_int32_def)
  from paste_over_fully_outside [OF h] h show ?thesis by simp
qed




text \<open>
  C10: with \<open>inplace\<close> false no array of the store is modified (in particular not
  \<open>im_dst\<close>), and a returned array is a new object of \<open>im_dst\<close>'s shape; with
  \<open>inplace\<close> true the returned reference is \<open>im_dst\<close> itself, which now holds the
  pasted image, and no other array is modified.
\<close>

theorem paste_over_inplace_frame:
  fixes st :: store
  assumes "im_dst < length st"
  shows "(\<forall>p. p < length st \<longrightarrow>
            snd (paste_over_heap st im_src im_dst alpha center False) ! p = st ! p)
       \<and> (\<forall>a. fst (paste_over_heap st im_src im_dst alpha center False) = Inr a \<longrightarrow>
            a \<noteq> im_dst \<and> a = length st
            \<and> shape (data (snd (paste_over_heap st im_src im_dst alpha center False) ! a))
              = shape (data (st ! im_dst)))
       \<and> (\<forall>a. fst (paste_over_heap st im_src im_dst alpha center True) = Inr a \<longrightarrow>
            a = im_dst
            \<and> paste_over (st ! im_src) (st ! im_dst) (map_option ((!) st) alpha) center
              = Inr (snd (paste_over_heap st im_src im_dst alpha center True) ! im_dst)
            \<and> shape (data (snd (paste_over_heap st im_src im_dst alpha center True) ! im_dst))
              = shape (data (st ! im_dst)))
       \<and> (\<forall>p. p < length st \<and> p \<noteq> im_dst \<longrightarrow>
            snd (paste_over_heap st im_src im_dst alpha center True) ! p = st ! p)"
  using assms
  by (auto simp: paste_over_heap_def nth_append dest: paste_over_shape(1) split: sum.splits)

theorem paste_over_inplace_frame_witness:
  "1 < length store0
   \<and> fst (paste_over_heap store0 0 1 (Some 2) (2, 1) False) = Inr 3
   \<and> snd (paste_over_heap store0 0 1 (Some 2) (2, 1) False) ! 1 = dst0
   \<and> shape (data (snd (paste_over_heap store0 0 1 (Some 2) (2, 1) False) ! 3)) = [4, 5, 3]
   \<and> fst (paste_over_heap store0 0 1 (Some 2) (2, 1) True) = Inr 1
   \<and> shape (data (snd (paste_over_heap store0 0 1 (Some 2) (2, 1) True) ! 1)) = [4, 5, 3]
   \<and> snd (paste_over_heap store0 0 1 (Some 2) (2, 1) True) ! 0 = src0"
proof -
  have len: "1 < length store0" by (simp add: store0_def)
  from paste_over_sample_succeeds obtain r
    where r: "paste_over src0 dst0 (Some alpha0) (2, 1) = Inr r" by blast
  have f: "fst (paste_over_heap store0 0 1 (Some 2) (2, 1) False) = Inr 3"
    and t: "fst (paste_over_heap store0 0 1 (Some 2) (2, 1) True) = Inr 1"
    using r by (simp_all add: paste_over_heap_def store0_def)
  from paste_over_inplace_frame [OF len, of 0 "Some 2" "(2, 1)"] f t len
  show ?thesis by (simp add: store0_def dst0_def)
qed

subsection \<open>\<open>is_image_readable\<close>\<close>

text \<open>
  C6, as stated: whenever the validator exits nonzero or cannot be launched the function
  returns False instead of raising. The second half fails: nothing catches the
  \<open>OSError\<close> of \<open>subprocess.call\<close>, so on a machine without the executable the call
  raises.
\<close>

theorem is_image_readable_launch_failure_raises:
  "is_image_readable no_identify ''photo.jpg'' = Inl OSError
   \<and> is_image_readable no_identify ''photo.jpg'' \<noteq> Inr False"
  by (simp add: is_image_readable_def subprocess_call_def no_identify_def)

text \<open>
  C6, amended: the function returns True exactly when the validator exits with code 0,
  returns False exactly when it exits with a nonzero code, and raises \<open>OSError\<close> exactly
  when the validator cannot be launched.
\<close>

theorem is_image_readable_by_exit_code:
  "(is_image_readable run path = Inr True
      \<longleftrightarrow> run [''/usr/bin/identify'', path] = Exited 0)
   \<and> (is_image_readable run path = Inr False
      \<longleftrightarrow> (\<exists>rc. rc \<noteq> 0 \<and> run [''/usr/bin/identify'', path] = Exited rc))
   \<and> (is_image_readable run path = Inl OSError
      \<longleftrightarrow> run [''/usr/bin/identify'', path] = LaunchFailed)"
  by (cases "run [''/usr/bin/identify'', path]")
     (auto simp: is_image_readable_def subprocess_call_def)

subsection \<open>\<open>adjust_gamma\<close>\<close>

text \<open>
  The rounding on known values: the double nearest to \<open>1 / 10\<close>, and numbers that are
  doubles already.
\<close>

lemma fl64_tenth: "fl64 (1 / 10) = 3602879701896397 / 36028797018963968"
  by code_simp

lemma fl64_exact: "fl64 255 = 255" "fl64 (1 / 2) = 1 / 2" "fl64 (- 3) = - 3"
  by code_simp+

text \<open>The entry of 33, operation by operation.\<close>

lemma step_255: "fl64 (1 / 255) = 282578800148737 / 72057594037927936"
  by code_simp

lemma y_33: "fl64 (33 * (282578800148737 / 72057594037927936)) = 291409387653385 / 2251799813685248"
  by code_simp

lemma v_33: "fl64 (291409387653385 / 2251799813685248 * 255) = 4644337115725823 / 140737488355328"
  by code_simp

lemma floor_33: "\<lfloor>4644337115725823 / 140737488355328 :: rat\<rfloor> = 32"
  by code_simp

lemma linspace_nth:
  "i < num - 1 \<Longrightarrow>
   np_linspace start stop num ! i
   = fl64 (fl64 (of_nat i * fl64 (fl64 (stop - start) / of_nat (num - 1))) + start)"
  by (simp add: np_linspace_def Let_def)

lemma table_nth:
  "i < 256 \<Longrightarrow>
   get_gamma_lookup_table pw gamma ! i
   = word_of_int \<lfloor>fl64 (pw (np_linspace 0 1 256 ! i) gamma * 255)\<rfloor>"
  by (simp add: get_gamma_lookup_table_def np_linspace_def Let_def)

lemma linspace_33: "np_linspace 0 1 256 ! 33 = 291409387653385 / 2251799813685248"
proof -
  have one: "fl64 1 = 1" by code_simp
  have "np_linspace 0 1 256 ! 33 = fl64 (fl64 (33 * fl64 (fl64 (1 - 0) / 255)) + 0)"
    using linspace_nth [of 33 256 0 1] by simp
  also have "\<dots> = fl64 (fl64 (33 * (282578800148737 / 72057594037927936)))"
    by (simp add: one step_255)
  also have "\<dots> = 291409387653385 / 2251799813685248"
    unfolding y_33 by code_simp
  finally show ?thesis .
qed

lemma gamma_table_33:
  assumes "\<And>x. pw x 1 = x"
  shows "get_gamma_lookup_table pw 1 ! 33 = 32"
proof -
  have "get_gamma_lookup_table pw 1 ! 33
        = word_of_int \<lfloor>fl64 (pw (np_linspace 0 1 256 ! 33) 1 * 255)\<rfloor>"
    by (rule table_nth) simp
  also have "\<dots> = word_of_int \<lfloor>fl64 (291409387653385 / 2251799813685248 * 255)\<rfloor>"
    unfolding assms linspace_33 ..
  also have "\<dots> = word_of_int \<lfloor>4644337115725823 / 140737488355328 :: rat\<rfloor>"
    unfolding v_33 ..
  also have "\<dots> = word_of_int 32"
    unfolding floor_33 ..
  finally show ?thesis by simp
qed

text \<open>
  C4 states that the table of \<open>gamma = 1\<close> maps every \<open>v\<close> to \<open>v\<close>, so that
  \<open>adjust_gamma(image, 1)\<close> is the identity. In double precision
  \<open>33 * (1 / 255) * 255\<close> evaluates to \<open>33 - 2 ^ -47\<close>, which the cast truncates: the
  table maps 33 to 32, and a pixel of value 33 comes back as 32.
\<close>

theorem adjust_gamma_one_darkens_33:
  assumes "\<forall>x. pw x 1 = x" and "elt img i = 33"
  shows "get_gamma_lookup_table pw 1 ! 33 = 32 \<and> elt (adjust_gamma pw img 1) i = 32"
  using assms gamma_table_33 [of pw] by (simp add: adjust_gamma_def cv2_LUT_def)

theorem adjust_gamma_one_darkens_33_witness:
  "(\<forall>x. pw1 x 1 = x) \<and> elt image33 [0, 0] = 33
   \<and> get_gamma_lookup_table pw1 1 ! 33 = 32 \<and> elt (adjust_gamma pw1 image33 1) [0, 0] = 32"
proof -
  have h: "\<forall>x. pw1 x 1 = x" "elt image33 [0, 0] = 33"
    by (simp_all add: pw1_def image33_def)
  from adjust_gamma_one_darkens_33 [of pw1 image33 "[0, 0]", OF h] h show ?thesis by simp
qed

subsection \<open>Connected components and resizing\<close>

lemma round_half_even_of_nat [simp]: "round_half_even (of_nat n) = int n"
  by (simp add: round_half_even_def Let_def)

text \<open>
  On the sample mask both one-pixel components are below \<open>min_size = 2\<close> and are
  cleared, and the largest foreground component is the last of the two equal ones.
\<close>

lemma remove_small_components_sample:
  "(case remove_small_components cc_two mask0 2 8 of
      Inl e \<Rightarrow> False
    | Inr r \<Rightarrow> elt r [0, 0] = 0 \<and> elt r [1, 2] = 0 \<and> elt r [0, 1] = 0)"
  by code_simp

lemma largest_connected_component_sample:
  "(case largest_connected_component cc_two mask0 of
      Inl e \<Rightarrow> False
    | Inr (m, box) \<Rightarrow> box = [2, 1, 1, 1] \<and> elt m [1, 2] = 1 \<and> elt m [0, 0] = 0)"
  by code_simp

text \<open>
  C7: with \<open>min_size = 0\<close> no label has an area below the threshold (an area is a
  number of pixels), so no pixel is cleared and the returned mask is the input.
\<close>

theorem remove_small_components_min_size_zero:
  assumes "connectedComponentsWithStats msk connectivity = Inr r"
      and "\<forall>s \<in> set (stats r). 0 \<le> cc_area s"
  shows "remove_small_components connectedComponentsWithStats msk 0 connectivity = Inr msk"
proof -
  have "\<not> cc_area (stats r ! i) < 0" if "i < length (stats r)" for i
    using assms(2) nth_mem [OF that] by fastforce
  then have "filter (\<lambda>i. map (\<lambda>s. cc_area s < 0) (stats r) ! i) [0..<length (stats r)] = []"
    by (simp add: filter_empty_conv)
  with assms(1) show ?thesis by (simp add: remove_small_components_def)
qed

theorem remove_small_components_min_size_zero_witness:
  "cc_two mask0 8 = Inr cc_two_result
   \<and> list_all (\<lambda>s. 0 \<le> cc_area s) (stats cc_two_result)
   \<and> remove_small_components cc_two mask0 0 8 = Inr mask0"
proof -
  have h: "cc_two mask0 8 = Inr cc_two_result"
    "\<forall>s \<in> set (stats cc_two_result). 0 \<le> cc_area s"
    by (simp_all add: cc_two_def cc_two_result_def)
  from remove_small_components_min_size_zero [of cc_two mask0 8 cc_two_result, OF h] h
  show ?thesis by (simp add: list_all_iff)
qed

text \<open>
  C8: for a mask without foreground components (the library reports the background
  label only) the function returns the mask cast to \<open>uint8\<close> and the box
  \<open>(0, 0, 0, 0)\<close>.
\<close>

theorem largest_connected_component_no_foreground:
  assumes "connectedComponentsWithStats (astype_uint8 msk) 4 = Inr r"
      and "n_labels r = 1" and "length (stats r) = n_labels r"
  shows "largest_connected_component connectedComponentsWithStats msk
         = Inr (astype_uint8 msk, [0, 0, 0, 0])"
  using assms by (simp add: largest_connected_component_def Let_def)

theorem largest_connected_component_no_foreground_witness:
  "cc_none (astype_uint8 blank) 4 = Inr cc_none_result
   \<and> n_labels cc_none_result = 1
   \<and> length (stats cc_none_result) = 1
   \<and> largest_connected_component cc_none blank = Inr (astype_uint8 blank, [0, 0, 0, 0])"
proof -
  have h: "cc_none (astype_uint8 blank) 4 = Inr cc_none_result"
    "n_labels cc_none_result = 1"
    "length (stats cc_none_result) = n_labels cc_none_result"
    by (simp_all add: cc_none_def cc_none_result_def)
  from largest_connected_component_no_foreground [of cc_none blank cc_none_result, OF h] h
  show ?thesis by simp
qed

text \<open>
  C9: with factor 1 the function asks \<open>cv2.resize\<close> for the image's own
  \<open>(width, height)\<close> with area interpolation; when the library returns the image
  unchanged for a request of its own size, so does \<open>resize_by_factor\<close>.
\<close>

theorem resize_by_factor_one:
  assumes "2 \<le> length (shape im)"
      and "cv2_resize im [int (shape im ! 1), int (shape im ! 0)] 1 1 INTER_AREA = Inr im"
  shows "resize_by_factor cv2_resize im 1 None = Inr im"
  using assms by (simp add: resize_by_factor_def rounded_int_tuple_def Let_def)

theorem resize_by_factor_one_witness:
  "2 \<le> length (shape mask0)
   \<and> resize_same mask0 [int (shape mask0 ! 1), int (shape mask0 ! 0)] 1 1 INTER_AREA = Inr mask0
   \<and> resize_by_factor resize_same mask0 1 None = Inr mask0"
proof -
  have h: "2 \<le> length (shape mask0)"
    "resize_same mask0 [int (shape mask0 ! 1), int (shape mask0 ! 0)] 1 1 INTER_AREA = Inr mask0"
    by (simp_all add: resize_same_def mask0_def)
  from resize_by_factor_one [of mask0 resize_same, OF h] h show ?thesis by simp
qed

subsection \<open>Mask codec\<close>

lemma rle_expand_runs:
  assumes "\<forall>t \<in> set ts. t = 0 \<or> t = 1" and "p = 0 \<or> p = 1"
  shows "rle_expand p (rle_runs p c ts) = replicate c p @ ts"
  using assms
proof (induction ts arbitrary: p c)
  case Nil
  then show ?case by simp
next
  case (Cons t ts)
  show ?case
  proof (cases "t = p")
    case True
    with Cons.IH [of p "c + 1"] Cons.prems show ?thesis
      by (simp add: replicate_append_same)
  next
    case False
    with Cons.prems have flip: "(if p = 0 then 1 else 0) = t" by auto
    from Cons.prems have "t = 0 \<or> t = 1" by simp
    with Cons.IH [of t 1] Cons.prems have "rle_expand t (rle_runs t 1 ts) = t # ts" by simp
    with False flip show ?thesis by simp
  qed
qed

lemma fortran_order_nth:
  "y < h \<Longrightarrow> x < w \<Longrightarrow> fortran_order a h w ! (x * h + y) = elt a [y, x]"
proof -
  assume y: "y < h" and x: "x < w"
  have "x * h + y < h * w"
  proof -
    have "x * h + y < x * h + h" using y by simp
    also have "\<dots> = (x + 1) * h" by simp
    also have "\<dots> \<le> w * h" using x by (intro mult_le_mono1) simp
    finally show ?thesis by (simp add: mult.commute)
  qed
  then show ?thesis using y by (simp add: fortran_order_def)
qed

text \<open>
  C5: for a binary two-dimensional mask, decoding the encoded mask gives an array of the
  same shape whose elements are the mask's.
\<close>

theorem encode_decode_mask_roundtrip:
  assumes "shape m = [h, w]" and "is_binary m"
  shows "\<exists>e. encode_mask m = Some e \<and> shape (decode_mask e) = shape m
           \<and> (\<forall>y x. y < h \<and> x < w \<longrightarrow> uint (elt (decode_mask e) [y, x]) = elt m [y, x])"
proof -
  have bin: "elt m [y, x] = 0 \<or> elt m [y, x] = 1" if "y < h" "x < w" for y x
  proof -
    have "valid_index [y, x] (shape m)" using that assms(1) by (simp add: valid_index_def)
    then have "[y, x] \<in> set (indices (shape m))" by (simp add: set_indices)
    with assms(2) show ?thesis by (simp add: is_binary_def list_all_iff)
  qed
  let ?a = "astype_uint8 m"
  have all: "\<forall>t \<in> set (fortran_order ?a h w). t = 0 \<or> t = 1"
  proof
    fix t assume "t \<in> set (fortran_order ?a h w)"
    then obtain k where k: "k < h * w" and t: "t = elt ?a [k mod h, k div h]"
      by (auto simp: fortran_order_def)
    from k have "0 < h" by (cases h) auto
    then have "k mod h < h" by simp
    moreover from k have "k div h < w" by (simp add: less_mult_imp_div_less mult.commute)
    ultimately have "elt m [k mod h, k div h] = 0 \<or> elt m [k mod h, k div h] = 1"
      by (rule bin)
    with t show "t = 0 \<or> t = 1" by (auto simp: astype_uint8_def)
  qed
  have buf: "rle_expand 0 (rle_runs 0 0 (fortran_order ?a h w)) = fortran_order ?a h w"
    using rle_expand_runs [OF all, of 0 0] by simp
  have px: "uint (elt ?a [y, x]) = elt m [y, x]" if "y < h" "x < w" for y x
    using bin [OF that] by (auto simp: astype_uint8_def)
  show ?thesis
    using assms(1) buf px
    by (simp add: encode_mask_def decode_mask_def mask_encode_def mask_decode_def
        astype_uint8_def [of m, THEN arg_cong [of _ _ shape]] fortran_order_nth)
qed

theorem encode_decode_mask_roundtrip_witness:
  "shape mask0 = [2, 3] \<and> is_binary mask0
   \<and> (\<exists>e. encode_mask mask0 = Some e \<and> shape (decode_mask e) = [2, 3]
          \<and> uint (elt (decode_mask e) [1, 2]) = 1 \<and> uint (elt (decode_mask e) [0, 1]) = 0)"
proof -
  have s: "shape mask0 = [2, 3]" by (simp add: mask0_def)
  have b: "is_binary mask0" by code_simp
  from encode_decode_mask_roundtrip [OF s b]
  obtain e where e: "encode_mask mask0 = Some e" "shape (decode_mask e) = shape mask0"
    and px: "\<And>y x. y < 2 \<and> x < 3 \<Longrightarrow> uint (elt (decode_mask e) [y, x]) = elt mask0 [y, x]"
    by blast
  from px [of 1 2] px [of 0 1] e s b show ?thesis by (simp add: mask0_def)
qed

end
